theory Spec2Isabelle
  imports Complex_Main "HOL-Library.Sublist"
begin

section \<open>JavaScript strings\<close>

text \<open>
  A JavaScript string is a sequence of UTF-16 code units. The model writes a code
  unit as a natural number, below 65536 in every string the program builds, and a
  string as the list of its units. \<open>js\<close> reads a literal of this theory as such a
  string and \<open>cu\<close> a character as its unit.
\<close>

type_synonym jstring = "nat list"

abbreviation js :: "string \<Rightarrow> jstring" where
  "js s \<equiv> map of_char s"

abbreviation cu :: "char \<Rightarrow> nat" where
  "cu c \<equiv> of_char c"

fun join :: "jstring \<Rightarrow> jstring list \<Rightarrow> jstring" where
  "join sep [] = []"
| "join sep [x] = x"
| "join sep (x # y # ys) = x @ sep @ join sep (y # ys)"

fun startsWith :: "jstring \<Rightarrow> jstring \<Rightarrow> bool" where
  "startsWith s [] = True"
| "startsWith [] (p # ps) = False"
| "startsWith (c # s) (p # ps) = (c = p \<and> startsWith s ps)"

definition endsWith :: "jstring \<Rightarrow> jstring \<Rightarrow> bool" where
  "endsWith s p = startsWith (rev s) (rev p)"

text \<open>\<open>String.prototype.includes\<close>: the pattern occurs somewhere in the string.\<close>

fun js_includes :: "jstring \<Rightarrow> jstring \<Rightarrow> bool" where
  "js_includes [] p = (p = [])"
| "js_includes (c # s) p = (startsWith (c # s) p \<or> js_includes s p)"

text \<open>
  \<open>trim\<close> removes white space and line terminators from both ends: tab, line feed,
  vertical tab, form feed, carriage return, space, the no-break space, the other
  space separators of Unicode, the line and paragraph separators and the byte order
  mark.
\<close>

definition js_space :: "nat \<Rightarrow> bool" where
  "js_space c = (c = 0x09 \<or> c = 0x0A \<or> c = 0x0B \<or> c = 0x0C \<or> c = 0x0D \<or> c = 0x20
                 \<or> c = 0xA0 \<or> c = 0x1680 \<or> (0x2000 \<le> c \<and> c \<le> 0x200A)
                 \<or> c = 0x2028 \<or> c = 0x2029 \<or> c = 0x202F \<or> c = 0x205F
                 \<or> c = 0x3000 \<or> c = 0xFEFF)"

definition trim :: "jstring \<Rightarrow> jstring" where
  "trim s = rev (dropWhile js_space (rev (dropWhile js_space s)))"

text \<open>A natural number written in decimal, as a template literal prints it.\<close>

fun digits_of :: "nat \<Rightarrow> nat \<Rightarrow> jstring" where
  "digits_of 0 n = []"
| "digits_of (Suc fuel) n =
     (if n < 10 then [48 + n]
      else digits_of fuel (n div 10) @ [48 + n mod 10])"

definition show_nat :: "nat \<Rightarrow> jstring" where
  "show_nat n = digits_of (Suc n) n"

section \<open>JSON values and \<open>JSON.parse\<close>\<close>

text \<open>
  The value \<open>JSON.parse\<close> returns. An object keeps its members in the order of the
  text; a key written twice keeps the last value, which \<open>get_field\<close> implements.
  A number is the rational value of the double the engine reads from the literal.
\<close>

datatype json =
    JNull
  | JBool bool
  | JNumber rat
  | JString jstring
  | JArray "json list"
  | JObject "(jstring \<times> json) list"

text \<open>
  The issues a failed schema check reports (zod): what is wrong, and where in the
  value.
\<close>

datatype path_elem = Key jstring | Index nat

datatype zod_code = invalid_type | too_small | too_big

type_synonym zod_issue = "zod_code \<times> path_elem list"

text \<open>
  Four things belong to the JavaScript engine and to zod and are parameters of the
  model: the double a number literal is rounded to (given here for the exact
  rational the literal denotes), the case mapping of \<open>toLowerCase\<close> over Unicode,
  the message of the \<open>SyntaxError\<close> that \<open>JSON.parse\<close> throws for a text, and the
  message of a \<open>ZodError\<close>.
\<close>

record runtime =
  toDouble :: "rat \<Rightarrow> rat"
  toLowerCase :: "jstring \<Rightarrow> jstring"
  syntaxErrorMessage :: "jstring \<Rightarrow> jstring"
  zodErrorMessage :: "zod_issue list \<Rightarrow> jstring"

definition get_field :: "(jstring \<times> json) list \<Rightarrow> jstring \<Rightarrow> json option" where
  "get_field members k = map_of (rev members) k"

definition json_ws :: "nat \<Rightarrow> bool" where
  "json_ws c = (c = (cu (CHR 0x20)) \<or> c = (cu (CHR 0x09)) \<or> c = (cu (CHR 0x0A)) \<or> c = (cu (CHR 0x0D)))"

definition skip_ws :: "jstring \<Rightarrow> jstring" where
  "skip_ws s = dropWhile json_ws s"

definition is_digit :: "nat \<Rightarrow> bool" where
  "is_digit c = (48 \<le> c \<and> c \<le> 57)"

definition digit_val :: "nat \<Rightarrow> nat" where
  "digit_val c = c - 48"

definition digits_val :: "jstring \<Rightarrow> nat" where
  "digits_val ds = foldl (\<lambda>acc c. 10 * acc + digit_val c) 0 ds"

definition hex_val :: "nat \<Rightarrow> nat option" where
  "hex_val c =
     (let n = c
      in if 48 \<le> n \<and> n \<le> 57 then Some (n - 48)
         else if 65 \<le> n \<and> n \<le> 70 then Some (n - 55)
         else if 97 \<le> n \<and> n \<le> 102 then Some (n - 87)
         else None)"

definition hex4 :: "nat \<Rightarrow> nat \<Rightarrow> nat \<Rightarrow> nat \<Rightarrow> nat option" where
  "hex4 a b c d =
     (case (hex_val a, hex_val b, hex_val c, hex_val d) of
        (Some w, Some x, Some y, Some z) \<Rightarrow> Some (((w * 16 + x) * 16 + y) * 16 + z)
      | _ \<Rightarrow> None)"

definition unescape :: "nat \<Rightarrow> nat option" where
  "unescape e =
     (if e = (cu (CHR 0x22)) then Some ((cu (CHR 0x22)))
      else if e = (cu (CHR 0x5C)) then Some ((cu (CHR 0x5C)))
      else if e = (cu (CHR ''/'')) then Some ((cu (CHR ''/'')))
      else if e = (cu (CHR ''b'')) then Some ((cu (CHR 0x08)))
      else if e = (cu (CHR ''f'')) then Some ((cu (CHR 0x0C)))
      else if e = (cu (CHR ''n'')) then Some ((cu (CHR 0x0A)))
      else if e = (cu (CHR ''r'')) then Some ((cu (CHR 0x0D)))
      else if e = (cu (CHR ''t'')) then Some ((cu (CHR 0x09)))
      else None)"

definition cons_result :: "nat \<Rightarrow> (jstring \<times> jstring) option \<Rightarrow> (jstring \<times> jstring) option" where
  "cons_result c r = (case r of None \<Rightarrow> None | Some (s, rest) \<Rightarrow> Some (c # s, rest))"

text \<open>
  The characters of a string literal after its opening quote, up to and including
  the closing quote. An escape with four hexadecimal digits gives the code unit of
  that value; a control character below 0x20 must be escaped.
\<close>

fun parse_string_body :: "jstring \<Rightarrow> (jstring \<times> jstring) option" where
  "parse_string_body [] = None"
| "parse_string_body (c # cs) =
     (if c = (cu (CHR 0x22)) then Some ([], cs)
      else if c = (cu (CHR 0x5C)) then
        (case cs of
           [] \<Rightarrow> None
         | e # cs' \<Rightarrow>
             if e = (cu (CHR ''u'')) then
               (case cs' of
                  h1 # h2 # h3 # h4 # rest \<Rightarrow>
                    (case hex4 h1 h2 h3 h4 of
                       None \<Rightarrow> None
                     | Some n \<Rightarrow>
                         cons_result n (parse_string_body rest))
                | _ \<Rightarrow> None)
             else
               (case unescape e of
                  None \<Rightarrow> None
                | Some ch \<Rightarrow> cons_result ch (parse_string_body cs')))
      else if c < 32 then None
      else cons_result c (parse_string_body cs))"

text \<open>
  A number: an optional minus, an integer part without a leading zero, an optional
  fraction and an optional exponent.
\<close>

definition parse_frac :: "jstring \<Rightarrow> (jstring \<times> jstring) option" where
  "parse_frac s =
     (case s of
        c # r \<Rightarrow>
          if c = (cu (CHR ''.'')) then
            (if takeWhile is_digit r = [] then None
             else Some (takeWhile is_digit r, dropWhile is_digit r))
          else Some ([], s)
      | [] \<Rightarrow> Some ([], s))"

definition parse_exp_digits :: "bool \<Rightarrow> jstring \<Rightarrow> (int \<times> jstring) option" where
  "parse_exp_digits neg r =
     (if takeWhile is_digit r = [] then None
      else Some ((if neg then - int (digits_val (takeWhile is_digit r))
                  else int (digits_val (takeWhile is_digit r))),
                 dropWhile is_digit r))"

definition parse_exp :: "jstring \<Rightarrow> (int \<times> jstring) option" where
  "parse_exp s =
     (case s of
        c # r \<Rightarrow>
          if c = (cu (CHR ''e'')) \<or> c = (cu (CHR ''E'')) then
            (case r of
               sg # r' \<Rightarrow>
                 if sg = (cu (CHR ''-'')) then parse_exp_digits True r'
                 else if sg = (cu (CHR ''+'')) then parse_exp_digits False r'
                 else parse_exp_digits False r
             | [] \<Rightarrow> None)
          else Some (0, s)
      | [] \<Rightarrow> Some (0, s))"

definition scale10 :: "rat \<Rightarrow> int \<Rightarrow> rat" where
  "scale10 x e = (if 0 \<le> e then x * 10 ^ nat e else x / 10 ^ nat (- e))"

definition parse_unsigned :: "jstring \<Rightarrow> (rat \<times> jstring) option" where
  "parse_unsigned s =
     (let ds = takeWhile is_digit s
      in if ds = [] \<or> (1 < length ds \<and> hd ds = (cu (CHR ''0''))) then None
         else
           (case parse_frac (dropWhile is_digit s) of
              None \<Rightarrow> None
            | Some (fs, s') \<Rightarrow>
                (case parse_exp s' of
                   None \<Rightarrow> None
                 | Some (e, s'') \<Rightarrow>
                     Some (scale10 (of_nat (digits_val (ds @ fs)) / 10 ^ length fs) e, s''))))"

definition parse_number :: "jstring \<Rightarrow> (rat \<times> jstring) option" where
  "parse_number s =
     (case s of
        c # r \<Rightarrow>
          if c = (cu (CHR ''-'')) then
            (case parse_unsigned r of None \<Rightarrow> None | Some (x, s') \<Rightarrow> Some (- x, s'))
          else parse_unsigned s
      | [] \<Rightarrow> None)"

definition parse_literal :: "jstring \<Rightarrow> json \<Rightarrow> jstring \<Rightarrow> (json \<times> jstring) option" where
  "parse_literal word v s =
     (if startsWith s word then Some (v, drop (length word) s) else None)"

text \<open>
  The recursive descent over values, array elements and object members. \<open>rnd\<close> is
  the rounding of number literals; the next argument bounds the number of nested
  calls. \<open>json_parse\<close> starts it above twice the length of the text, and every call
  but the one from an element list to its first value consumes a character.
\<close>

fun parse_value :: "(rat \<Rightarrow> rat) \<Rightarrow> nat \<Rightarrow> jstring \<Rightarrow> (json \<times> jstring) option"
  and parse_elements :: "(rat \<Rightarrow> rat) \<Rightarrow> nat \<Rightarrow> jstring \<Rightarrow> (json list \<times> jstring) option"
  and parse_members :: "(rat \<Rightarrow> rat) \<Rightarrow> nat \<Rightarrow> jstring \<Rightarrow> ((jstring \<times> json) list \<times> jstring) option"
where
  "parse_value rnd 0 s = None"
| "parse_value rnd (Suc n) s =
     (case skip_ws s of
        [] \<Rightarrow> None
      | c # cs \<Rightarrow>
          if c = (cu (CHR ''{'')) then
            (case skip_ws cs of
               [] \<Rightarrow> None
             | d # r \<Rightarrow>
                 if d = (cu (CHR ''}'')) then Some (JObject [], r)
                 else (case parse_members rnd n cs of
                         None \<Rightarrow> None
                       | Some (ms, r') \<Rightarrow> Some (JObject ms, r')))
          else if c = (cu (CHR ''['')) then
            (case skip_ws cs of
               [] \<Rightarrow> None
             | d # r \<Rightarrow>
                 if d = (cu (CHR '']'')) then Some (JArray [], r)
                 else (case parse_elements rnd n cs of
                         None \<Rightarrow> None
                       | Some (vs, r') \<Rightarrow> Some (JArray vs, r')))
          else if c = (cu (CHR 0x22)) then
            (case parse_string_body cs of
               None \<Rightarrow> None
             | Some (str, r) \<Rightarrow> Some (JString str, r))
          else if c = (cu (CHR ''t'')) then parse_literal (js ''true'') (JBool True) (c # cs)
          else if c = (cu (CHR ''f'')) then parse_literal (js ''false'') (JBool False) (c # cs)
          else if c = (cu (CHR ''n'')) then parse_literal (js ''null'') JNull (c # cs)
          else if c = (cu (CHR ''-'')) \<or> is_digit c then
            (case parse_number (c # cs) of
               None \<Rightarrow> None
             | Some (x, r) \<Rightarrow> Some (JNumber (rnd x), r))
          else None)"
| "parse_elements rnd 0 s = None"
| "parse_elements rnd (Suc n) s =
     (case parse_value rnd n s of
        None \<Rightarrow> None
      | Some (v, r) \<Rightarrow>
          (case skip_ws r of
             [] \<Rightarrow> None
           | d # r' \<Rightarrow>
               if d = (cu (CHR '','')) then
                 (case parse_elements rnd n r' of
                    None \<Rightarrow> None
                  | Some (vs, r'') \<Rightarrow> Some (v # vs, r''))
               else if d = (cu (CHR '']'')) then Some ([v], r')
               else None))"
| "parse_members rnd 0 s = None"
| "parse_members rnd (Suc n) s =
     (case skip_ws s of
        [] \<Rightarrow> None
      | q # cs \<Rightarrow>
          if q = (cu (CHR 0x22)) then
            (case parse_string_body cs of
               None \<Rightarrow> None
             | Some (k, r) \<Rightarrow>
                 (case skip_ws r of
                    [] \<Rightarrow> None
                  | col # r1 \<Rightarrow>
                      if col = (cu (CHR '':'')) then
                        (case parse_value rnd n r1 of
                           None \<Rightarrow> None
                         | Some (v, r2) \<Rightarrow>
                             (case skip_ws r2 of
                                [] \<Rightarrow> None
                              | d # r3 \<Rightarrow>
                                  if d = (cu (CHR '','')) then
                                    (case parse_members rnd n r3 of
                                       None \<Rightarrow> None
                                     | Some (ms, r4) \<Rightarrow> Some ((k, v) # ms, r4))
                                  else if d = (cu (CHR ''}'')) then Some ([(k, v)], r3)
                                  else None))
                      else None))
          else None)"

text \<open>
  \<open>JSON.parse\<close>: white space around the one value is ignored, anything else left
  over is a syntax error (\<open>None\<close>).
\<close>

definition trim_json_ws :: "jstring \<Rightarrow> jstring" where
  "trim_json_ws s = rev (dropWhile json_ws (rev (dropWhile json_ws s)))"

definition json_parse :: "runtime \<Rightarrow> jstring \<Rightarrow> json option" where
  "json_parse rt s =
     (let t = trim_json_ws s
      in case parse_value (toDouble rt) (2 * length t + 2) t of
           None \<Rightarrow> None
         | Some (v, r) \<Rightarrow> if r = [] then Some v else None)"

section \<open>The structured resume and its formatter (lib/resumeParser.ts)\<close>

record ParsedResume =
  skills :: "jstring list"
  experience :: "jstring list"
  education :: "jstring list"
  contact :: jstring

definition formatResumeForAnalysis :: "ParsedResume \<Rightarrow> jstring" where
  "formatResumeForAnalysis parsedResume =
     (let sections = [];
          sections = (if length (skills parsedResume) > 0
                      then sections @ [(js ''Skills: '') @ join (js '', '') (skills parsedResume)]
                      else sections);
          sections = (if length (experience parsedResume) > 0
                      then sections @ [(js ''Experience:\<newline>'') @ join (js ''\<newline>'') (experience parsedResume)]
                      else sections);
          sections = (if length (education parsedResume) > 0
                      then sections @ [(js ''Education:\<newline>'') @ join (js ''\<newline>'') (education parsedResume)]
                      else sections)
      in join (js ''\<newline>\<newline>'') sections)"

section \<open>Schema validation (zod)\<close>

text \<open>
  A failed \<open>parse\<close> throws a \<open>ZodError\<close> carrying one issue per offending place; a
  successful one returns the fields of the schema and drops every other key.
\<close>

definition issues_of :: "zod_issue list + 'a \<Rightarrow> zod_issue list" where
  "issues_of r = (case r of Inl issues \<Rightarrow> issues | Inr v \<Rightarrow> [])"

text \<open>\<open>z.string()\<close>; an absent key arrives as \<open>None\<close>.\<close>

definition zod_string :: "path_elem list \<Rightarrow> json option \<Rightarrow> zod_issue list + jstring" where
  "zod_string path v =
     (case v of Some (JString s) \<Rightarrow> Inr s | _ \<Rightarrow> Inl [(invalid_type, path)])"

fun zod_string_items :: "path_elem list \<Rightarrow> nat \<Rightarrow> json list \<Rightarrow> zod_issue list \<times> jstring list" where
  "zod_string_items path i [] = ([], [])"
| "zod_string_items path i (x # xs) =
     (case zod_string (path @ [Index i]) (Some x) of
        Inl issues \<Rightarrow>
          (issues @ fst (zod_string_items path (Suc i) xs), snd (zod_string_items path (Suc i) xs))
      | Inr s \<Rightarrow>
          (fst (zod_string_items path (Suc i) xs), s # snd (zod_string_items path (Suc i) xs)))"

text \<open>\<open>z.array(z.string())\<close>\<close>

definition zod_string_array :: "path_elem list \<Rightarrow> json option \<Rightarrow> zod_issue list + jstring list" where
  "zod_string_array path v =
     (case v of
        Some (JArray xs) \<Rightarrow>
          (if fst (zod_string_items path 0 xs) = [] then Inr (snd (zod_string_items path 0 xs))
           else Inl (fst (zod_string_items path 0 xs)))
      | _ \<Rightarrow> Inl [(invalid_type, path)])"

text \<open>\<open>z.number().min(0).max(100)\<close>: both bounds are inclusive.\<close>

definition zod_number_min0_max100 :: "path_elem list \<Rightarrow> json option \<Rightarrow> zod_issue list + rat" where
  "zod_number_min0_max100 path v =
     (case v of
        Some (JNumber x) \<Rightarrow>
          (if x < 0 then Inl [(too_small, path)]
           else if 100 < x then Inl [(too_big, path)]
           else Inr x)
      | _ \<Rightarrow> Inl [(invalid_type, path)])"

definition ParsedResumeSchema_parse :: "json \<Rightarrow> zod_issue list + ParsedResume" where
  "ParsedResumeSchema_parse v =
     (case v of
        JObject members \<Rightarrow>
          (case (zod_string_array [Key (js ''skills'')] (get_field members (js ''skills'')),
                 zod_string_array [Key (js ''experience'')] (get_field members (js ''experience'')),
                 zod_string_array [Key (js ''education'')] (get_field members (js ''education'')),
                 zod_string [Key (js ''contact'')] (get_field members (js ''contact''))) of
             (Inr s, Inr x, Inr d, Inr c) \<Rightarrow>
               Inr \<lparr>skills = s, experience = x, education = d, contact = c\<rparr>
           | (s, x, d, c) \<Rightarrow>
               Inl (issues_of s @ issues_of x @ issues_of d @ issues_of c))
      | _ \<Rightarrow> Inl [(invalid_type, [])])"

record AnalysisResult =
  matchPercentage :: rat
  matchedSkills :: "jstring list"
  missingSkills :: "jstring list"
  suggestions :: "jstring list"

definition AnalysisResultSchema_parse :: "json \<Rightarrow> zod_issue list + AnalysisResult" where
  "AnalysisResultSchema_parse v =
     (case v of
        JObject members \<Rightarrow>
          (case (zod_number_min0_max100 [Key (js ''matchPercentage'')] (get_field members (js ''matchPercentage'')),
                 zod_string_array [Key (js ''matchedSkills'')] (get_field members (js ''matchedSkills'')),
                 zod_string_array [Key (js ''missingSkills'')] (get_field members (js ''missingSkills'')),
                 zod_string_array [Key (js ''suggestions'')] (get_field members (js ''suggestions''))) of
             (Inr p, Inr m, Inr g, Inr s) \<Rightarrow>
               Inr \<lparr>matchPercentage = p, matchedSkills = m, missingSkills = g, suggestions = s\<rparr>
           | (p, m, g, s) \<Rightarrow>
               Inl (issues_of p @ issues_of m @ issues_of g @ issues_of s))
      | _ \<Rightarrow> Inl [(invalid_type, [])])"

section \<open>Thrown values and provider requests\<close>

text \<open>
  What a \<open>catch\<close> block can receive: a \<open>ZodError\<close>, another instance of \<open>Error\<close>
  (with the \<open>status\<close> property the provider SDKs add), an object that is no
  \<open>Error\<close>, or a value that is no object at all. \<open>status\<close> is absent, present but
  undefined, or a number.
\<close>

datatype status_prop = NoStatus | StatusUndefined | Status nat

datatype thrown =
    ZodError "zod_issue list"
  | JsError status_prop jstring
  | JsObject status_prop "jstring option"
  | JsPrimitive

abbreviation Error :: "jstring \<Rightarrow> thrown" where
  "Error msg \<equiv> JsError NoStatus msg"

text \<open>\<open>error && typeof error === 'object' && 'message' in error\<close>\<close>

fun has_message :: "thrown \<Rightarrow> bool" where
  "has_message (ZodError issues) = True"
| "has_message (JsError st m) = True"
| "has_message (JsObject st m) = (m \<noteq> None)"
| "has_message JsPrimitive = False"

text \<open>\<open>error && typeof error === 'object' && 'status' in error\<close>\<close>

fun has_status :: "thrown \<Rightarrow> bool" where
  "has_status (ZodError issues) = False"
| "has_status (JsError st m) = (st \<noteq> NoStatus)"
| "has_status (JsObject st m) = (st \<noteq> NoStatus)"
| "has_status JsPrimitive = False"

fun status_of :: "thrown \<Rightarrow> status_prop" where
  "status_of (JsError st m) = st"
| "status_of (JsObject st m) = st"
| "status_of e = NoStatus"

fun is_Error :: "thrown \<Rightarrow> bool" where
  "is_Error (ZodError issues) = True"
| "is_Error (JsError st m) = True"
| "is_Error e = False"

text \<open>\<open>error.message || ''\<close>\<close>

fun message_or_empty :: "runtime \<Rightarrow> thrown \<Rightarrow> jstring" where
  "message_or_empty rt (ZodError issues) = zodErrorMessage rt issues"
| "message_or_empty rt (JsError st m) = m"
| "message_or_empty rt (JsObject st (Some m)) = m"
| "message_or_empty rt (JsObject st None) = []"
| "message_or_empty rt JsPrimitive = []"

text \<open>
  One call of the provider: the model name, the temperature, the messages by role
  and whether JSON output is requested. The provider is a function from the request
  to what the call does: it throws, or it returns the content of the first choice
  (\<open>None\<close> where the choice, its message or its content is missing).
\<close>

record request =
  req_model :: jstring
  req_temperature :: rat
  req_messages :: "(jstring \<times> jstring) list"
  req_json_mode :: bool

type_synonym provider = "request \<Rightarrow> thrown + jstring option"

text \<open>\<open>!apiKey\<close>, \<open>!content\<close>: undefined, null and the empty string are falsy.\<close>

definition falsy :: "jstring option \<Rightarrow> bool" where
  "falsy v = (v = None \<or> v = Some [])"

section \<open>The extraction stage: \<open>parseResumeFromText\<close> (lib/resumeParser.ts)\<close>

definition parser_systemPrompt :: jstring where
  \<open>parser_systemPrompt =
     (js ''You are an expert resume parser. Extract structured data from resume text and return ONLY valid JSON.\<newline>'') @
     (js ''\<newline>'') @
     (js ''Extract the following information:\<newline>'') @
     (js ''1. skills: An array of technical and soft skills mentioned in the resume (e.g., ["JavaScript", "React", "Team Leadership", "Project Management"])\<newline>'') @
     (js ''2. experience: An array of work experience entries, each as a jstring describing the role, company, and key responsibilities (e.g., ["Software Engineer at Google (2020-2023): Developed web applications using React and Node.js"])\<newline>'') @
     (js ''3. education: An array of educational qualifications (e.g., ["BS in Computer Science from MIT (2016-2020)"])\<newline>'') @
     (js ''4. contact: A single jstring with contact information (email, phone, or location if available, otherwise "Not provided")\<newline>'') @
     (js ''\<newline>'') @
     (js ''Return ONLY valid JSON in this exact format:\<newline>'') @
     (js ''{\<newline>'') @
     (js ''  "skills": jstring[],\<newline>'') @
     (js ''  "experience": jstring[],\<newline>'') @
     (js ''  "education": jstring[],\<newline>'') @
     (js ''  "contact": jstring\<newline>'') @
     (js ''}\<newline>'') @
     (js ''\<newline>'') @
     (js ''Do not include any markdown formatting, code blocks, or explanatory text. Return only the JSON object.'')\<close>

definition parser_userPrompt :: "jstring \<Rightarrow> jstring" where
  \<open>parser_userPrompt resumeText =
     (js ''Extract structured data from the following resume text:\<newline>\<newline>'') @
     resumeText @
     (js ''\<newline>\<newline>Provide the JSON response with skills, experience, education, and contact information.'')\<close>

definition parser_request :: "jstring \<Rightarrow> request" where
  "parser_request resumeText =
     \<lparr>req_model = (js ''llama-3.3-70b-versatile''), req_temperature = 2 / 10,
      req_messages = [((js ''system''), parser_systemPrompt), ((js ''user''), parser_userPrompt resumeText)],
      req_json_mode = True\<rparr>"

text \<open>The message tests of the Groq-backed catch blocks.\<close>

definition groq_rate_limit_text :: "runtime \<Rightarrow> jstring \<Rightarrow> bool" where
  "groq_rate_limit_text rt errorMessage =
     (js_includes errorMessage (js ''429'') \<or>
      js_includes (toLowerCase rt errorMessage) (js ''quota'') \<or>
      js_includes (toLowerCase rt errorMessage) (js ''rate limit'') \<or>
      js_includes (toLowerCase rt errorMessage) (js ''too many requests''))"

definition groq_credential_text :: "runtime \<Rightarrow> jstring \<Rightarrow> bool" where
  "groq_credential_text rt errorMessage =
     (js_includes errorMessage (js ''401'') \<or>
      js_includes (toLowerCase rt errorMessage) (js ''api key'') \<or>
      js_includes (toLowerCase rt errorMessage) (js ''authentication'') \<or>
      js_includes (toLowerCase rt errorMessage) (js ''unauthorized''))"

text \<open>
  The body of the \<open>try\<close> block, from the outcome of the provider call on. An array
  is truthy in JavaScript, also when empty, so \<open>validated.skills || []\<close> is
  \<open>validated.skills\<close>; the empty string is falsy.
\<close>

definition parseResumeFromText_try :: "runtime \<Rightarrow> thrown + jstring option \<Rightarrow> thrown + ParsedResume" where
  "parseResumeFromText_try rt completion =
     (case completion of
        Inl e \<Rightarrow> Inl e
      | Inr content \<Rightarrow>
          (case content of
             None \<Rightarrow> Inl (Error (js ''No response content from resume parser''))
           | Some c \<Rightarrow>
               if c = [] then Inl (Error (js ''No response content from resume parser''))
               else
                 (case json_parse rt c of
                    None \<Rightarrow>
                      Inl (Error ((js ''Failed to parse JSON response: '') @ syntaxErrorMessage rt c))
                  | Some parsed \<Rightarrow>
                      (case ParsedResumeSchema_parse parsed of
                         Inl issues \<Rightarrow> Inl (ZodError issues)
                       | Inr validated \<Rightarrow>
                           Inr \<lparr>skills = skills validated,
                                experience = experience validated,
                                education = education validated,
                                contact = (if contact validated = [] then (js ''Not provided'')
                                           else contact validated)\<rparr>))))"

text \<open>The \<open>catch\<close> block: what is thrown to the caller for the value caught.\<close>

definition parseResumeFromText_catch :: "runtime \<Rightarrow> thrown \<Rightarrow> thrown" where
  "parseResumeFromText_catch rt error =
     (case error of
        ZodError issues \<Rightarrow>
          Error ((js ''Invalid resume structure from parser: '') @ zodErrorMessage rt issues)
      | _ \<Rightarrow>
          if has_message error \<and> groq_rate_limit_text rt (message_or_empty rt error) then
            Error (js ''Resume parser API rate limit exceeded. Please wait a moment and try again.'')
          else if has_message error \<and> groq_credential_text rt (message_or_empty rt error) then
            Error (js ''Resume parser API authentication failed. Please check that your GROQ_API_KEY is valid.'')
          else if is_Error error then error
          else Error (js ''Unknown error occurred during resume parsing''))"

text \<open>
  The result pairs the requests submitted to the provider, in order, with the
  outcome: \<open>Inl\<close> the value thrown, \<open>Inr\<close> the value returned.
\<close>

definition parseResumeFromText ::
  "runtime \<Rightarrow> jstring option \<Rightarrow> provider \<Rightarrow> jstring \<Rightarrow> request list \<times> (thrown + ParsedResume)" where
  "parseResumeFromText rt apiKey create resumeText =
     (if falsy apiKey then
        ([], Inl (Error (js ''GROQ_API_KEY is not configured. Get a free API key at https://console.groq.com/keys'')))
      else
        ([parser_request resumeText],
         (case parseResumeFromText_try rt (create (parser_request resumeText)) of
            Inl error \<Rightarrow> Inl (parseResumeFromText_catch rt error)
          | Inr parsedResume \<Rightarrow> Inr parsedResume)))"

section \<open>The analysis stage: \<open>analyzeResume\<close>, three providers\<close>

definition analysis_systemPrompt :: jstring where
  \<open>analysis_systemPrompt =
     (js ''You are an expert resume analyst. Your task is to analyze a resume against a job description and return a structured JSON response.\<newline>'') @
     (js ''\<newline>'') @
     (js ''Analyze the resume text and job description, then provide:\<newline>'') @
     (js ''1. matchPercentage: A realistic percentage (0-100) indicating how well the resume matches the job requirements. Be conservative and accurate.\<newline>'') @
     (js ''2. matchedSkills: An array of skills that appear in both the resume and job description. Include technical skills, programming languages, tools, frameworks, and relevant soft skills.\<newline>'') @
     (js ''3. missingSkills: An array of important skills mentioned in the job description that are not present in the resume.\<newline>'') @
     (js ''4. suggestions: An array of actionable, specific improvement suggestions (2-5 suggestions) to help the candidate improve their resume match.\<newline>'') @
     (js ''\<newline>'') @
     (js ''Return ONLY valid JSON in this exact format:\<newline>'') @
     (js ''{\<newline>'') @
     (js ''  "matchPercentage": number,\<newline>'') @
     (js ''  "matchedSkills": jstring[],\<newline>'') @
     (js ''  "missingSkills": jstring[],\<newline>'') @
     (js ''  "suggestions": jstring[]\<newline>'') @
     (js ''}\<newline>'') @
     (js ''\<newline>'') @
     (js ''Do not include any markdown formatting, code blocks, or explanatory text. Return only the JSON object.'')\<close>

definition analysis_userPrompt :: "jstring \<Rightarrow> jstring \<Rightarrow> jstring" where
  \<open>analysis_userPrompt resumeText jobDescription =
     (js ''Resume Text:\<newline>'') @ resumeText @
     (js ''\<newline>\<newline>Job Description:\<newline>'') @ jobDescription @
     (js ''\<newline>\<newline>Analyze the resume against the job description and provide the JSON response as specified.'')\<close>

text \<open>
  Decoding and validating the content, shared by the three \<open>try\<close> blocks; the text
  handed to \<open>JSON.parse\<close> is the content itself (Groq, OpenAI) or the content
  without its fences (Gemini).
\<close>

definition analysis_decode :: "runtime \<Rightarrow> jstring \<Rightarrow> thrown + AnalysisResult" where
  "analysis_decode rt jsonContent =
     (case json_parse rt jsonContent of
        None \<Rightarrow>
          Inl (Error ((js ''Failed to parse JSON response: '') @ syntaxErrorMessage rt jsonContent))
      | Some parsed \<Rightarrow>
          (case AnalysisResultSchema_parse parsed of
             Inl issues \<Rightarrow> Inl (ZodError issues)
           | Inr validated \<Rightarrow> Inr validated))"

subsection \<open>Groq (lib/groq.ts)\<close>

definition groq_request :: "jstring \<Rightarrow> jstring \<Rightarrow> request" where
  "groq_request resumeText jobDescription =
     \<lparr>req_model = (js ''llama-3.3-70b-versatile''), req_temperature = 3 / 10,
      req_messages = [((js ''system''), analysis_systemPrompt),
                      ((js ''user''), analysis_userPrompt resumeText jobDescription)],
      req_json_mode = True\<rparr>"

definition groq_analyzeResume_try :: "runtime \<Rightarrow> thrown + jstring option \<Rightarrow> thrown + AnalysisResult" where
  "groq_analyzeResume_try rt completion =
     (case completion of
        Inl e \<Rightarrow> Inl e
      | Inr content \<Rightarrow>
          (case content of
             None \<Rightarrow> Inl (Error (js ''No response content from Groq''))
           | Some c \<Rightarrow>
               if c = [] then Inl (Error (js ''No response content from Groq''))
               else analysis_decode rt c))"

definition groq_analyzeResume_catch :: "runtime \<Rightarrow> thrown \<Rightarrow> thrown" where
  "groq_analyzeResume_catch rt error =
     (case error of
        ZodError issues \<Rightarrow>
          Error ((js ''Invalid response structure from AI: '') @ zodErrorMessage rt issues)
      | _ \<Rightarrow>
          if has_message error \<and> groq_rate_limit_text rt (message_or_empty rt error) then
            Error ((js ''Groq API rate limit exceeded. Free tier allows 14,400 requests per day. '') @
                   (js ''Please wait a moment and try again, or check your usage at https://console.groq.com''))
          else if has_message error \<and> groq_credential_text rt (message_or_empty rt error) then
            Error ((js ''Groq API authentication failed. Please check that your API key is valid. '') @
                   (js ''Get a free API key at https://console.groq.com/keys''))
          else if is_Error error then
            (if groq_rate_limit_text rt (message_or_empty rt error) then
               Error ((js ''Groq API rate limit exceeded. Free tier allows 14,400 requests per day. '') @
                      (js ''Please wait a moment and try again.''))
             else error)
          else Error (js ''Unknown error occurred during AI analysis''))"

definition groq_analyzeResume ::
  "runtime \<Rightarrow> jstring option \<Rightarrow> provider \<Rightarrow> jstring \<Rightarrow> jstring
     \<Rightarrow> request list \<times> (thrown + AnalysisResult)" where
  "groq_analyzeResume rt apiKey create resumeText jobDescription =
     (if falsy apiKey then
        ([], Inl (Error (js ''GROQ_API_KEY is not configured. Get a free API key at https://console.groq.com/keys'')))
      else
        ([groq_request resumeText jobDescription],
         (case groq_analyzeResume_try rt (create (groq_request resumeText jobDescription)) of
            Inl error \<Rightarrow> Inl (groq_analyzeResume_catch rt error)
          | Inr validated \<Rightarrow> Inr validated)))"

subsection \<open>OpenAI (lib/openai.ts)\<close>

definition openai_request :: "jstring \<Rightarrow> jstring \<Rightarrow> request" where
  "openai_request resumeText jobDescription =
     \<lparr>req_model = (js ''gpt-4o-mini''), req_temperature = 3 / 10,
      req_messages = [((js ''system''), analysis_systemPrompt),
                      ((js ''user''), analysis_userPrompt resumeText jobDescription)],
      req_json_mode = True\<rparr>"

definition openai_analyzeResume_try :: "runtime \<Rightarrow> thrown + jstring option \<Rightarrow> thrown + AnalysisResult" where
  "openai_analyzeResume_try rt completion =
     (case completion of
        Inl e \<Rightarrow> Inl e
      | Inr content \<Rightarrow>
          (case content of
             None \<Rightarrow> Inl (Error (js ''No response content from OpenAI''))
           | Some c \<Rightarrow>
               if c = [] then Inl (Error (js ''No response content from OpenAI''))
               else analysis_decode rt c))"

text \<open>The status as the template literal of the catch block prints it.\<close>

fun show_status :: "status_prop \<Rightarrow> jstring" where
  "show_status (Status n) = show_nat n"
| "show_status st = (js ''undefined'')"

definition openai_quota_message :: jstring where
  "openai_quota_message =
     (js ''OpenAI API quota exceeded. Please check your OpenAI account billing and usage limits. '') @
     (js ''Visit https://platform.openai.com/account/billing to add credits or upgrade your plan.'')"

definition openai_analyzeResume_catch :: "runtime \<Rightarrow> thrown \<Rightarrow> thrown" where
  "openai_analyzeResume_catch rt error =
     (case error of
        ZodError issues \<Rightarrow>
          Error ((js ''Invalid response structure from AI: '') @ zodErrorMessage rt issues)
      | _ \<Rightarrow>
          if has_status error then
            (if status_of error = Status 429 then
               (if js_includes (toLowerCase rt (message_or_empty rt error)) (js ''quota'') \<or>
                   js_includes (toLowerCase rt (message_or_empty rt error)) (js ''billing'') \<or>
                   js_includes (toLowerCase rt (message_or_empty rt error)) (js ''exceeded'')
                then Error openai_quota_message
                else Error ((js ''OpenAI API rate limit exceeded. Please wait a moment and try again, '') @
                            (js ''or upgrade your plan for higher rate limits.'')))
             else if status_of error = Status 401 then
               Error ((js ''OpenAI API authentication failed. Please check that your API key is valid '') @
                      (js ''and correctly configured in your .env.local file.''))
             else
               Error ((js ''OpenAI API error ('') @ show_status (status_of error) @ (js ''): '') @
                      (if message_or_empty rt error = [] then (js ''Unknown error'')
                       else message_or_empty rt error)))
          else if is_Error error then
            (if js_includes (message_or_empty rt error) (js ''429'') \<or>
                js_includes (toLowerCase rt (message_or_empty rt error)) (js ''quota'') \<or>
                js_includes (toLowerCase rt (message_or_empty rt error)) (js ''billing'') \<or>
                js_includes (toLowerCase rt (message_or_empty rt error)) (js ''exceeded your current quota'')
             then Error openai_quota_message
             else if js_includes (toLowerCase rt (message_or_empty rt error)) (js ''rate limit'')
             then Error (js ''OpenAI API rate limit exceeded. Please wait a moment and try again.'')
             else error)
          else Error (js ''Unknown error occurred during AI analysis''))"

definition openai_analyzeResume ::
  "runtime \<Rightarrow> jstring option \<Rightarrow> provider \<Rightarrow> jstring \<Rightarrow> jstring
     \<Rightarrow> request list \<times> (thrown + AnalysisResult)" where
  "openai_analyzeResume rt apiKey create resumeText jobDescription =
     (if falsy apiKey then ([], Inl (Error (js ''OPENAI_API_KEY is not configured'')))
      else
        ([openai_request resumeText jobDescription],
         (case openai_analyzeResume_try rt (create (openai_request resumeText jobDescription)) of
            Inl error \<Rightarrow> Inl (openai_analyzeResume_catch rt error)
          | Inr validated \<Rightarrow> Inr validated)))"

subsection \<open>Gemini (second module of lib/openai.ts)\<close>

definition modelName :: jstring where
  "modelName = (js ''gemini-1.5-flash'')"

text \<open>Gemini has no system message: one prompt holds both parts.\<close>

definition gemini_request :: "jstring \<Rightarrow> jstring \<Rightarrow> request" where
  "gemini_request resumeText jobDescription =
     \<lparr>req_model = modelName, req_temperature = 3 / 10,
      req_messages = [((js ''user''), analysis_systemPrompt @ (js ''\<newline>\<newline>'') @
                                 analysis_userPrompt resumeText jobDescription)],
      req_json_mode = True\<rparr>"

text \<open>
  \<open>s.replace(/^FENCE\n?/, '')\<close> for a string that starts with the fence: the fence
  goes, and one line feed after it when there is one.
\<close>

definition replace_fence_start :: "jstring \<Rightarrow> jstring \<Rightarrow> jstring" where
  "replace_fence_start fence s =
     (if startsWith s fence then
        (case drop (length fence) s of
           [] \<Rightarrow> []
         | c # r \<Rightarrow> if c = (cu (CHR 0x0A)) then r else c # r)
      else s)"

text \<open>
  \<open>s.replace(/\n?```$/, '')\<close>: without the multi-line flag \<open>$\<close> is the end of the
  string, so the only matches are the last three or, after a line feed, the last
  four characters; the leftmost match is the longer one.
\<close>

definition replace_fence_end :: "jstring \<Rightarrow> jstring" where
  "replace_fence_end s =
     (if endsWith s (js ''\<newline>```'') then take (length s - 4) s
      else if endsWith s (js ''```'') then take (length s - 3) s
      else s)"

definition gemini_jsonContent :: "jstring \<Rightarrow> jstring" where
  "gemini_jsonContent content =
     (if startsWith (trim content) (js ''```json'') then
        replace_fence_end (replace_fence_start (js ''```json'') (trim content))
      else if startsWith (trim content) (js ''```'') then
        replace_fence_end (replace_fence_start (js ''```'') (trim content))
      else trim content)"

definition gemini_analyzeResume_try :: "runtime \<Rightarrow> thrown + jstring option \<Rightarrow> thrown + AnalysisResult" where
  "gemini_analyzeResume_try rt result =
     (case result of
        Inl e \<Rightarrow> Inl e
      | Inr content \<Rightarrow>
          (case content of
             None \<Rightarrow> Inl (Error (js ''No response content from Gemini''))
           | Some c \<Rightarrow>
               if c = [] then Inl (Error (js ''No response content from Gemini''))
               else analysis_decode rt (gemini_jsonContent c)))"

definition gemini_not_found_text :: "runtime \<Rightarrow> jstring \<Rightarrow> bool" where
  "gemini_not_found_text rt errorMessage =
     (js_includes errorMessage (js ''404'') \<or>
      js_includes (toLowerCase rt errorMessage) (js ''not found'') \<or>
      js_includes (toLowerCase rt errorMessage) (js ''is not found for api version'') \<or>
      js_includes (toLowerCase rt errorMessage) (js ''is not found''))"

definition gemini_quota_text :: "runtime \<Rightarrow> jstring \<Rightarrow> bool" where
  "gemini_quota_text rt errorMessage =
     (js_includes errorMessage (js ''429'') \<or>
      js_includes (toLowerCase rt errorMessage) (js ''quota'') \<or>
      js_includes (toLowerCase rt errorMessage) (js ''resource exhausted'') \<or>
      js_includes (toLowerCase rt errorMessage) (js ''rate limit''))"

definition gemini_credential_text :: "runtime \<Rightarrow> jstring \<Rightarrow> bool" where
  "gemini_credential_text rt errorMessage =
     (js_includes errorMessage (js ''401'') \<or>
      js_includes (toLowerCase rt errorMessage) (js ''api key'') \<or>
      js_includes (toLowerCase rt errorMessage) (js ''authentication''))"

definition gemini_quota_message :: jstring where
  "gemini_quota_message =
     (js ''Gemini API quota exceeded. You have reached the free tier limit. '') @
     (js ''Please wait a moment and try again, or upgrade at https://ai.google.dev/pricing'')"

definition gemini_analyzeResume_catch :: "runtime \<Rightarrow> thrown \<Rightarrow> thrown" where
  \<open>gemini_analyzeResume_catch rt error =
     (case error of
        ZodError issues \<Rightarrow>
          Error ((js ''Invalid response structure from AI: '') @ zodErrorMessage rt issues)
      | _ \<Rightarrow>
          if has_message error \<and> gemini_not_found_text rt (message_or_empty rt error) then
            Error ((js ''Gemini model "'') @ modelName @ (js ''" is not available for your account/region. '') @
                   (js ''Available models vary by region. Try changing the model name in lib/gemini.ts to: "gemini-pro" or "gemini-1.5-flash". '') @
                   (js ''Check available models: https://ai.google.dev/models''))
          else if has_message error \<and> gemini_quota_text rt (message_or_empty rt error) then
            Error gemini_quota_message
          else if has_message error \<and> gemini_credential_text rt (message_or_empty rt error) then
            Error ((js ''Gemini API authentication failed. Please check that your API key is valid. '') @
                   (js ''Get a free API key at https://makersuite.google.com/app/apikey''))
          else if is_Error error then
            (if gemini_quota_text rt (message_or_empty rt error) then Error gemini_quota_message
             else error)
          else Error (js ''Unknown error occurred during AI analysis''))\<close>

definition gemini_analyzeResume ::
  "runtime \<Rightarrow> jstring option \<Rightarrow> provider \<Rightarrow> jstring \<Rightarrow> jstring
     \<Rightarrow> request list \<times> (thrown + AnalysisResult)" where
  "gemini_analyzeResume rt apiKey generateContent resumeText jobDescription =
     (if falsy apiKey then
        ([], Inl (Error (js ''GEMINI_API_KEY is not configured. Get a free API key at https://makersuite.google.com/app/apikey'')))
      else
        ([gemini_request resumeText jobDescription],
         (case gemini_analyzeResume_try rt (generateContent (gemini_request resumeText jobDescription)) of
            Inl error \<Rightarrow> Inl (gemini_analyzeResume_catch rt error)
          | Inr validated \<Rightarrow> Inr validated)))"

section \<open>The route handlers\<close>

datatype response_body =
    ErrorBody jstring
  | ResumeBody ParsedResume
  | AnalysisBody AnalysisResult

record response =
  status :: nat
  body :: response_body

text \<open>\<open>error instanceof Error ? error.message : fallback\<close>\<close>

definition message_or :: "runtime \<Rightarrow> thrown \<Rightarrow> jstring \<Rightarrow> jstring" where
  "message_or rt error fallback = (if is_Error error then message_or_empty rt error else fallback)"

subsection \<open>POST /api/analyze (app/api/analyze/route.ts)\<close>


subsection \<open>Text extraction (lib/pdfParser.ts)\<close>

text \<open>
  What \<open>pdfParse\<close> resolves to: something that is no object, or an object whose
  \<open>text\<close> is a string (\<open>Some\<close>) or is not. The buffer is a list of bytes, written as
  a \<^typ>\<open>string\<close> of the theory.
\<close>

datatype pdf_data = PdfNoObject | PdfObject "jstring option"

type_synonym pdf_library = "string \<Rightarrow> thrown + pdf_data"

text \<open>\<open>toString('ascii')\<close> clears the highest bit of every byte.\<close>

definition ascii_decode :: "string \<Rightarrow> jstring" where
  "ascii_decode bytes = map (\<lambda>b. (of_char b :: nat) mod 128) bytes"

definition extractTextFromPDF_try :: "thrown + pdf_data \<Rightarrow> thrown + jstring" where
  "extractTextFromPDF_try parsed =
     (case parsed of
        Inl e \<Rightarrow> Inl e
      | Inr PdfNoObject \<Rightarrow> Inl (Error (js ''PDF parsing returned invalid data structure''))
      | Inr (PdfObject t) \<Rightarrow>
          (let text = (case t of Some s \<Rightarrow> s | None \<Rightarrow> [])
           in if text = [] \<or> length (trim text) = 0 then
                Inl (Error ((js ''Could not extract text from PDF. The PDF may be image-based (scanned) '') @
                            (js ''or contain no readable text. Please ensure the PDF contains selectable text.'')))
              else Inr (trim text)))"

definition extractTextFromPDF_catch :: "runtime \<Rightarrow> thrown \<Rightarrow> thrown" where
  \<open>extractTextFromPDF_catch rt error =
     (if is_Error error then
        (if js_includes (message_or_empty rt error) (js ''Cannot read properties of undefined'') \<or>
            js_includes (message_or_empty rt error) ((js ''reading '') @ [(cu (CHR 0x27))] @ (js ''0'') @ [(cu (CHR 0x27))]) \<or>
            js_includes (message_or_empty rt error) (js ''Cannot read property'')
         then
           Error ((js ''PDF parsing failed: The PDF format may not be fully supported. This can happen with '') @
                  (js ''scanned PDFs, PDFs with complex layouts, or corrupted files. Please try a different PDF '') @
                  (js ''file or ensure the PDF contains selectable text (not just images).''))
         else if js_includes (message_or_empty rt error) (js ''Invalid PDF'') \<or>
                 js_includes (message_or_empty rt error) (js ''invalid PDF'')
         then Error (js ''Invalid PDF file format. Please ensure the file is a valid PDF document.'')
         else if js_includes (message_or_empty rt error) (js ''Password required'') \<or>
                 js_includes (message_or_empty rt error) (js ''password'')
         then Error (js ''This PDF is password-protected. Please remove the password and try again.'')
         else Error ((js ''Failed to parse PDF: '') @ message_or_empty rt error))
      else Error (js ''Failed to parse PDF: Unknown error occurred. Please try a different PDF file.''))\<close>

definition extractTextFromPDF :: "runtime \<Rightarrow> pdf_library \<Rightarrow> string \<Rightarrow> thrown + jstring" where
  "extractTextFromPDF rt pdfParse fileBuffer =
     (if length fileBuffer = 0 then
        Inl (Error (js ''Invalid PDF file: File buffer is empty or undefined''))
      else if ascii_decode (take 4 fileBuffer) \<noteq> (js ''%PDF'') then
        Inl (Error (js ''Invalid PDF file: File does not appear to be a valid PDF''))
      else
        (case extractTextFromPDF_try (pdfParse fileBuffer) of
           Inl error \<Rightarrow> Inl (extractTextFromPDF_catch rt error)
         | Inr text \<Rightarrow> Inr text))"

subsection \<open>POST /api/parse-resume (the resume-parsing route)\<close>

text \<open>The uploaded file: its media type and its bytes; its size is their number.\<close>

record upload =
  file_type :: jstring
  file_bytes :: string

definition parse_POST ::
  "runtime \<Rightarrow> jstring option \<Rightarrow> provider \<Rightarrow> pdf_library \<Rightarrow> thrown + upload option
     \<Rightarrow> request list \<times> response" where
  "parse_POST rt apiKey create pdfParse formData =
     (case formData of
        Inl error \<Rightarrow>
          ([], \<lparr>status = 500, body = ErrorBody (message_or rt error (js ''An unknown error occurred''))\<rparr>)
      | Inr None \<Rightarrow> ([], \<lparr>status = 400, body = ErrorBody (js ''Resume file is required'')\<rparr>)
      | Inr (Some resumeFile) \<Rightarrow>
          if file_type resumeFile \<noteq> (js ''application/pdf'') then
            ([], \<lparr>status = 400, body = ErrorBody (js ''Only PDF files are supported'')\<rparr>)
          else if 10 * 1024 * 1024 < length (file_bytes resumeFile) then
            ([], \<lparr>status = 400,
                  body = ErrorBody (js ''File size exceeds 10MB limit. Please upload a smaller file.'')\<rparr>)
          else
            (case extractTextFromPDF rt pdfParse (file_bytes resumeFile) of
               Inl pdfError \<Rightarrow>
                 ([], \<lparr>status = 400,
                       body = ErrorBody (message_or rt pdfError
                         (js ''Failed to extract text from PDF. The PDF may be corrupted or image-based.''))\<rparr>)
             | Inr resumeText \<Rightarrow>
                 if resumeText = [] \<or> length (trim resumeText) = 0 then
                   ([], \<lparr>status = 400,
                         body = ErrorBody ((js ''Could not extract text from PDF. The PDF may be image-based (scanned) '') @
                                           (js ''or contain no readable text. Please ensure the PDF contains selectable text.''))\<rparr>)
                 else
                   (case parseResumeFromText rt apiKey create resumeText of
                      (calls, Inl parseError) \<Rightarrow>
                        (calls, \<lparr>status = 500,
                                 body = ErrorBody (message_or rt parseError
                                   (js ''Failed to parse resume data. Please try again.''))\<rparr>)
                    | (calls, Inr parsedResume) \<Rightarrow>
                        if length (skills parsedResume) = 0 \<and>
                           length (experience parsedResume) = 0 \<and>
                           length (education parsedResume) = 0
                        then
                          (calls, \<lparr>status = 400,
                                   body = ErrorBody ((js ''Could not extract meaningful data from resume. Please ensure '') @
                                                     (js ''the resume contains skills, experience, or education information.''))\<rparr>)
                        else (calls, \<lparr>status = 200, body = ResumeBody parsedResume\<rparr>))))"

section \<open>Notions used in the proofs about the decoder\<close>

text \<open>
  \<open>ends_in good s r\<close>: the text \<open>s\<close> is a non-empty piece ending in a \<open>good\<close>
  character, followed by \<open>r\<close>. \<open>value_start\<close>: the characters a JSON value can
  begin with.
\<close>

definition ends_in :: "(nat \<Rightarrow> bool) \<Rightarrow> jstring \<Rightarrow> jstring \<Rightarrow> bool" where
  "ends_in good s r = (\<exists>u. s = u @ r \<and> u \<noteq> [] \<and> good (last u))"

definition value_start :: "nat \<Rightarrow> bool" where
  "value_start c = (c = (cu (CHR ''{'')) \<or> c = (cu (CHR ''['')) \<or> c = (cu (CHR 0x22)) \<or> c = (cu (CHR ''t''))
                    \<or> c = (cu (CHR ''f'')) \<or> c = (cu (CHR ''n'')) \<or> c = (cu (CHR ''-'')) \<or> is_digit c)"

section \<open>Sample inputs\<close>

text \<open>
  A runtime that reads number literals exactly, maps the capitals of ASCII and
  Latin-1 to their small letters as the engine does (the sample texts have no other
  letters) and words its messages the same way every time, a provider that answers every request with the same content, one that
  throws the same value, and a PDF library that returns the same text for every
  buffer.
\<close>

definition lower_latin1 :: "nat \<Rightarrow> nat" where
  "lower_latin1 c =
     (if (65 \<le> c \<and> c \<le> 90) \<or> (192 \<le> c \<and> c \<le> 222 \<and> c \<noteq> 215) then c + 32 else c)"

definition sample_runtime :: runtime where
  "sample_runtime =
     \<lparr>toDouble = (\<lambda>x. x),
      toLowerCase = map lower_latin1,
      syntaxErrorMessage = (\<lambda>text. (js ''Unexpected token'')),
      zodErrorMessage = (\<lambda>issues. (js ''Required''))\<rparr>"

definition replies :: "jstring \<Rightarrow> provider" where
  "replies content = (\<lambda>request. Inr (Some content))"

definition throws :: "thrown \<Rightarrow> provider" where
  "throws error = (\<lambda>request. Inl error)"

definition pdf_with_text :: "jstring \<Rightarrow> pdf_library" where
  "pdf_with_text text = (\<lambda>bytes. Inr (PdfObject (Some text)))"

section \<open>The formatter\<close>

text \<open>
  C6. \<open>formatResumeForAnalysis\<close> is a total function of the record: in the order
  skills, experience, education it emits the line \<open>Skills: \<close> with the skills joined
  by comma and space, the block \<open>Experience:\<close> with its entries joined by line feeds
  and the block \<open>Education:\<close> likewise, leaves out each section whose list is empty,
  and puts exactly one blank line between the sections that remain. The contact never
  reaches the output, and a record with three empty lists gives the empty string.
\<close>

theorem formatResumeForAnalysis_sections:
  "formatResumeForAnalysis r =
     (let S = (js ''Skills: '') @ join (js '', '') (skills r);
          X = (js ''Experience:\<newline>'') @ join (js ''\<newline>'') (experience r);
          D = (js ''Education:\<newline>'') @ join (js ''\<newline>'') (education r);
          blank = (js ''\<newline>\<newline>'')
      in if skills r = [] then
           (if experience r = [] then (if education r = [] then [] else D)
            else (if education r = [] then X else X @ blank @ D))
         else
           (if experience r = [] then (if education r = [] then S else S @ blank @ D)
            else (if education r = [] then S @ blank @ X else S @ blank @ X @ blank @ D)))
   \<and> formatResumeForAnalysis (r\<lparr>contact := c\<rparr>) = formatResumeForAnalysis r
   \<and> formatResumeForAnalysis \<lparr>skills = [], experience = [], education = [], contact = c\<rparr> = []"
  by (simp add: formatResumeForAnalysis_def Let_def)

theorem formatResumeForAnalysis_sections_witness:
  "formatResumeForAnalysis
     \<lparr>skills = [(js ''Python''), (js ''AWS'')], experience = [], education = [(js ''BSc''), (js ''MSc'')],
      contact = (js ''a@b.c'')\<rparr>
   = (js ''Skills: Python, AWS\<newline>\<newline>Education:\<newline>BSc\<newline>MSc'')"
  using formatResumeForAnalysis_sections
    [of "\<lparr>skills = [(js ''Python''), (js ''AWS'')], experience = [], education = [(js ''BSc''), (js ''MSc'')],
          contact = (js ''a@b.c'')\<rparr>" "(js ''x'')"]
  by simp

section \<open>The credential check\<close>

text \<open>
  C8. With the provider credential absent from the environment, \<open>parseResumeFromText\<close>
  and \<open>analyzeResume\<close> (each of the three providers) throw the error that names the
  missing variable, and no request has been submitted to the provider.
\<close>

theorem missing_credential_no_request:
  "parseResumeFromText rt None create resumeText =
     ([], Inl (Error (js ''GROQ_API_KEY is not configured. Get a free API key at https://console.groq.com/keys'')))
   \<and> groq_analyzeResume rt None create resumeText jobDescription =
     ([], Inl (Error (js ''GROQ_API_KEY is not configured. Get a free API key at https://console.groq.com/keys'')))
   \<and> openai_analyzeResume rt None create resumeText jobDescription =
     ([], Inl (Error (js ''OPENAI_API_KEY is not configured'')))
   \<and> gemini_analyzeResume rt None create resumeText jobDescription =
     ([], Inl (Error (js ''GEMINI_API_KEY is not configured. Get a free API key at https://makersuite.google.com/app/apikey'')))"
  by (simp add: parseResumeFromText_def groq_analyzeResume_def openai_analyzeResume_def
        gemini_analyzeResume_def falsy_def)

theorem missing_credential_no_request_witness:
  \<open>fst (parseResumeFromText sample_runtime None (replies (js ''{"skills":[]}'')) (js ''Python developer'')) = []
   \<and> fst (groq_analyzeResume sample_runtime None (replies (js ''{}'')) (js ''Skills: Python'') (js ''Python expert'')) = []\<close>
  using missing_credential_no_request
    [of sample_runtime \<open>replies (js ''{"skills":[]}'')\<close> "(js ''Python developer'')"]
    missing_credential_no_request
    [of sample_runtime \<open>replies (js ''{}'')\<close> "(js ''Skills: Python'')" "(js ''Python expert'')"]
  by simp

section \<open>Facts about decoding and validation\<close>

lemma json_parse_Nil: "json_parse rt [] = None"
  by (simp add: json_parse_def trim_json_ws_def skip_ws_def numeral_2_eq_2)

lemma zod_string_items_strings: "zod_string_items path i (map JString ss) = ([], ss)"
  by (induction ss arbitrary: i) (simp_all add: zod_string_def)

lemma zod_string_array_strings:
  "zod_string_array path (Some (JArray (map JString ss))) = Inr ss"
  by (simp add: zod_string_array_def zod_string_items_strings)









section \<open>Facts about trimming\<close>

lemma dropWhile_no_head: "xs = [] \<or> \<not> P (hd xs) \<Longrightarrow> dropWhile P xs = xs"
  by (cases xs) auto

lemma strip_fixed:
  assumes "s \<noteq> []" and "\<not> P (hd s)" and "\<not> P (last s)"
  shows "rev (dropWhile P (rev (dropWhile P s))) = s"
proof -
  have a: "dropWhile P s = s" using assms dropWhile_no_head by blast
  have "hd (rev s) = last s" using assms(1) by (simp add: hd_rev)
  then have "dropWhile P (rev s) = rev s" using assms dropWhile_no_head[of "rev s" P] by simp
  with a show ?thesis by simp
qed

lemma strip_ends:
  assumes "t = rev (dropWhile P (rev (dropWhile P s)))" and "t \<noteq> []"
  shows "\<not> P (hd t) \<and> \<not> P (last t)"
proof -
  define d where "d = dropWhile P s"
  define e where "e = dropWhile P (rev d)"
  have t: "t = rev e" using assms(1) by (simp add: d_def e_def)
  have e: "e \<noteq> []" using assms(2) t by simp
  then have he: "\<not> P (hd e)" unfolding e_def by (rule hd_dropWhile)
  have d: "d \<noteq> []" using e unfolding e_def by (cases d) simp_all
  then have hd_d: "\<not> P (hd d)" unfolding d_def by (rule hd_dropWhile)
  have "rev d = takeWhile P (rev d) @ e" by (simp add: e_def)
  then have "last (rev d) = last e" using e by (metis last_appendR)
  then have "last e = hd d" using d by (simp add: last_rev)
  moreover have "hd t = last e" using t e by (simp add: hd_rev)
  moreover have "last t = hd e" using t e by (simp add: last_rev)
  ultimately show ?thesis using he hd_d by simp
qed

lemma trim_Nil: "trim [] = []"
  by (simp add: trim_def)

lemma trim_idem: "trim (trim s) = trim s"
proof (cases "trim s = []")
  case True
  then have "trim (trim s) = trim []" by simp
  then show ?thesis using True trim_Nil by simp
next
  case False
  have "trim s = rev (dropWhile js_space (rev (dropWhile js_space s)))" by (simp add: trim_def)
  from strip_ends[OF this False]
  have "\<not> js_space (hd (trim s))" and "\<not> js_space (last (trim s))" by simp_all
  from strip_fixed[OF False this] show ?thesis by (simp add: trim_def)
qed

lemma extractTextFromPDF_try_Inr:
  "extractTextFromPDF_try r = Inr t \<Longrightarrow> t \<noteq> [] \<and> trim t = t"
  by (auto simp add: extractTextFromPDF_try_def Let_def trim_idem
      split: sum.splits pdf_data.splits if_splits option.splits)

lemma extractTextFromPDF_Inr:
  "extractTextFromPDF rt pdfParse bytes = Inr t \<Longrightarrow> t \<noteq> [] \<and> trim t = t"
  using extractTextFromPDF_try_Inr
  by (auto simp add: extractTextFromPDF_def split: if_splits sum.splits)

section \<open>Defaults and the schema of the structured resume\<close>

text \<open>
  C9. When the decoded response carries the three arrays of strings and a contact
  that is present but the empty string, the schema check accepts it with the empty
  contact, and \<open>parseResumeFromText\<close> returns the record with the contact replaced by
  \<open>Not provided\<close>: the replacement acts on a present, empty value.
\<close>

theorem empty_contact_replaced:
  assumes key: "\<not> falsy apiKey"
    and reply: "create (parser_request resumeText) = Inr (Some content)"
    and decoded: "json_parse rt content = Some (JObject members)"
    and s: "get_field members (js ''skills'') = Some (JArray (map JString ss))"
    and x: "get_field members (js ''experience'') = Some (JArray (map JString xs))"
    and d: "get_field members (js ''education'') = Some (JArray (map JString ds))"
    and c: "get_field members (js ''contact'') = Some (JString [])"
  shows "ParsedResumeSchema_parse (JObject members) =
           Inr \<lparr>skills = ss, experience = xs, education = ds, contact = []\<rparr>
         \<and> parseResumeFromText rt apiKey create resumeText =
           ([parser_request resumeText],
            Inr \<lparr>skills = ss, experience = xs, education = ds, contact = (js ''Not provided'')\<rparr>)"
proof -
  have ne: "content \<noteq> []" using decoded json_parse_Nil[of rt] by auto
  have v: "ParsedResumeSchema_parse (JObject members) =
           Inr \<lparr>skills = ss, experience = xs, education = ds, contact = []\<rparr>"
    using s x d c
    by (simp add: ParsedResumeSchema_parse_def zod_string_array_strings zod_string_def)
  show ?thesis
    using key reply decoded ne v
    by (simp add: parseResumeFromText_def parseResumeFromText_try_def)
qed

theorem empty_contact_replaced_witness:
  \<open>parseResumeFromText sample_runtime (Some (js ''gsk_key''))
      (replies (js ''{"skills":["Python"],"experience":[],"education":["BSc"],"contact":""}''))
      (js ''Python developer'')
    = ([parser_request (js ''Python developer'')],
       Inr \<lparr>skills = [(js ''Python'')], experience = [], education = [(js ''BSc'')],
            contact = (js ''Not provided'')\<rparr>)\<close>
proof -
  have k: "\<not> falsy (Some (js ''gsk_key''))" by (simp add: falsy_def)
  have r: \<open>replies (js ''{"skills":["Python"],"experience":[],"education":["BSc"],"contact":""}'')
             (parser_request (js ''Python developer''))
           = Inr (Some (js ''{"skills":["Python"],"experience":[],"education":["BSc"],"contact":""}''))\<close>
    by (simp add: replies_def)
  have d: \<open>json_parse sample_runtime (js ''{"skills":["Python"],"experience":[],"education":["BSc"],"contact":""}'')
           = Some (JObject [((js ''skills''), JArray [JString (js ''Python'')]), ((js ''experience''), JArray []),
                            ((js ''education''), JArray [JString (js ''BSc'')]), ((js ''contact''), JString [])])\<close>
    by code_simp
  show ?thesis
    using k r d
      empty_contact_replaced[where apiKey = "Some (js ''gsk_key'')"
        and create = \<open>replies (js ''{"skills":["Python"],"experience":[],"education":["BSc"],"contact":""}'')\<close>
        and resumeText = "(js ''Python developer'')"
        and content = \<open>(js ''{"skills":["Python"],"experience":[],"education":["BSc"],"contact":""}'')\<close>
        and members = "[((js ''skills''), JArray [JString (js ''Python'')]), ((js ''experience''), JArray []),
                        ((js ''education''), JArray [JString (js ''BSc'')]), ((js ''contact''), JString [])]"
        and ss = "[(js ''Python'')]" and xs = "[]" and ds = "[(js ''BSc'')]" and rt = sample_runtime]
    by (simp add: get_field_def)
qed




section \<open>The schema of the match analysis\<close>



section \<open>The resume-parsing route\<close>

text \<open>
  C10. When the upload passes the checks of the route, its text is extracted and
  \<open>parseResumeFromText\<close> returns a record whose skills, experience and education are
  all empty, the route answers with status 400 and the message
  \<open>Could not extract meaningful data from resume\<close> instead of the record.
\<close>

theorem parse_route_rejects_empty_resume:
  assumes form: "formData = Inr (Some resumeFile)"
    and pdf: "file_type resumeFile = (js ''application/pdf'')"
    and size: "length (file_bytes resumeFile) \<le> 10 * 1024 * 1024"
    and extracted: "extractTextFromPDF rt pdfParse (file_bytes resumeFile) = Inr resumeText"
    and parsed: "parseResumeFromText rt apiKey create resumeText = (calls, Inr parsedResume)"
    and empty: "skills parsedResume = [] \<and> experience parsedResume = [] \<and> education parsedResume = []"
  shows "parse_POST rt apiKey create pdfParse formData =
           (calls, \<lparr>status = 400,
                    body = ErrorBody ((js ''Could not extract meaningful data from resume. Please ensure '') @
                                      (js ''the resume contains skills, experience, or education information.''))\<rparr>)"
proof -
  from extractTextFromPDF_Inr[OF extracted] have "resumeText \<noteq> []" and "trim resumeText \<noteq> []" by auto
  then show ?thesis
    using form pdf size extracted parsed empty by (simp add: parse_POST_def)
qed

theorem parse_route_rejects_empty_resume_witness:
  \<open>parse_POST sample_runtime (Some (js ''gsk_key''))
      (replies (js ''{"skills":[],"experience":[],"education":[],"contact":"a@b.c"}''))
      (pdf_with_text (js ''Jane Doe'')) (Inr (Some \<lparr>file_type = (js ''application/pdf''), file_bytes = ''%PDF-1.4''\<rparr>))
    = ([parser_request (js ''Jane Doe'')],
       \<lparr>status = 400,
        body = ErrorBody ((js ''Could not extract meaningful data from resume. Please ensure '') @
                          (js ''the resume contains skills, experience, or education information.''))\<rparr>)\<close>
proof -
  have t: \<open>extractTextFromPDF sample_runtime (pdf_with_text (js ''Jane Doe''))
             (file_bytes \<lparr>file_type = (js ''application/pdf''), file_bytes = ''%PDF-1.4''\<rparr>) = Inr (js ''Jane Doe'')\<close>
    by code_simp
  have p: \<open>parseResumeFromText sample_runtime (Some (js ''gsk_key''))
      (replies (js ''{"skills":[],"experience":[],"education":[],"contact":"a@b.c"}'')) (js ''Jane Doe'')
      = ([parser_request (js ''Jane Doe'')],
         Inr \<lparr>skills = [], experience = [], education = [], contact = (js ''a@b.c'')\<rparr>)\<close>
    by code_simp
  show ?thesis
    using parse_route_rejects_empty_resume[OF refl _ _ t p] by simp
qed

section \<open>What the decoder consumes\<close>

text \<open>
  Whatever the decoder accepts ends in a character that is no white space for
  \<open>trim\<close>: a quote, a digit, a closing bracket or brace, or the last letter of
  \<open>true\<close>, \<open>false\<close>, \<open>null\<close>.
\<close>

lemma ends_in_prepend: "ends_in good s r \<Longrightarrow> ends_in good (p @ s) r"
  unfolding ends_in_def
proof -
  assume "\<exists>u. s = u @ r \<and> u \<noteq> [] \<and> good (last u)"
  then obtain u where "s = u @ r" "u \<noteq> []" "good (last u)" by blast
  then have "p @ s = (p @ u) @ r \<and> p @ u \<noteq> [] \<and> good (last (p @ u))" by simp
  then show "\<exists>u. p @ s = u @ r \<and> u \<noteq> [] \<and> good (last u)" by blast
qed

lemma ends_in_Cons: "ends_in good s r \<Longrightarrow> ends_in good (c # s) r"
  using ends_in_prepend[of good s r "[c]"] by simp

lemma ends_in_single: "good c \<Longrightarrow> ends_in good (p @ c # r) r"
  unfolding ends_in_def
proof -
  assume "good c"
  then have "p @ c # r = (p @ [c]) @ r \<and> p @ [c] \<noteq> [] \<and> good (last (p @ [c]))" by simp
  then show "\<exists>u. p @ c # r = u @ r \<and> u \<noteq> [] \<and> good (last u)" by blast
qed

lemma ends_in_single0: "good c \<Longrightarrow> ends_in good (c # r) r"
  using ends_in_single[of good c "[]" r] by simp

lemma ends_in_trans: "ends_in g s r1 \<Longrightarrow> ends_in good r1 r \<Longrightarrow> ends_in good s r"
proof -
  assume "ends_in g s r1" and b: "ends_in good r1 r"
  then obtain u where "s = u @ r1" by (auto simp add: ends_in_def)
  with ends_in_prepend[OF b, of u] show ?thesis by simp
qed

lemma ends_in_weaken: "ends_in g s r \<Longrightarrow> (\<And>c. g c \<Longrightarrow> good c) \<Longrightarrow> ends_in good s r"
  by (auto simp add: ends_in_def)

lemma ends_in_skip_ws: "ends_in good (skip_ws s) r \<Longrightarrow> ends_in good s r"
proof -
  assume a: "ends_in good (skip_ws s) r"
  have "s = takeWhile json_ws s @ skip_ws s" by (simp add: skip_ws_def)
  with ends_in_prepend[OF a, of "takeWhile json_ws s"] show ?thesis by simp
qed

lemma ends_in_skip_ws_Cons: "skip_ws s = c # t \<Longrightarrow> ends_in good t r \<Longrightarrow> ends_in good s r"
  using ends_in_skip_ws[of good s r] ends_in_Cons[of good t r c] by simp

lemma ends_in_skip_ws_single: "skip_ws s = c # r \<Longrightarrow> good c \<Longrightarrow> ends_in good s r"
  using ends_in_skip_ws[of good s r] ends_in_single0[of good c r] by simp

lemma cons_result_Some:
  "cons_result c x = Some (s, r) \<Longrightarrow> \<exists>s'. x = Some (s', r) \<and> s = c # s'"
  by (auto simp add: cons_result_def split: option.splits)

lemma parse_string_body_ends:
  "parse_string_body cs = Some (str, r) \<Longrightarrow> ends_in (\<lambda>c. c = (cu (CHR 0x22))) cs r"
proof (induction "length cs" arbitrary: cs str rule: less_induct)
  case less
  note IH = less.hyps
  show ?case
  proof (cases cs)
    case Nil
    with less.prems show ?thesis by simp
  next
    case (Cons c cs0)
    note cs = Cons
    show ?thesis
    proof (cases "c = (cu (CHR 0x22))")
      case True
      with less.prems cs have "r = cs0" by simp
      with True cs show ?thesis using ends_in_single0[of "\<lambda>c. c = (cu (CHR 0x22))" c r] by simp
    next
      case False
      note notq = False
      show ?thesis
      proof (cases "c = (cu (CHR 0x5C))")
        case True
        note bs = True
        show ?thesis
        proof (cases cs0)
          case Nil
          with less.prems cs notq bs show ?thesis by simp
        next
          case (Cons e cs')
          show ?thesis
          proof (cases "e = (cu (CHR ''u''))")
            case True
            with less.prems cs notq bs Cons
            have "\<exists>h1 h2 h3 h4 rest ch. cs' = h1 # h2 # h3 # h4 # rest
                    \<and> cons_result ch (parse_string_body rest) = Some (str, r)"
              by (auto split: list.splits option.splits if_splits)
            then obtain h1 h2 h3 h4 rest ch where
              cs': "cs' = h1 # h2 # h3 # h4 # rest"
              and res: "cons_result ch (parse_string_body rest) = Some (str, r)"
              by blast
            from cons_result_Some[OF res] obtain s' where "parse_string_body rest = Some (s', r)" by blast
            moreover have "length rest < length cs" using cs Cons cs' by simp
            ultimately have "ends_in (\<lambda>c. c = (cu (CHR 0x22))) rest r" using IH by blast
            then have "ends_in (\<lambda>c. c = (cu (CHR 0x22))) ([c, e, h1, h2, h3, h4] @ rest) r" by (rule ends_in_prepend)
            with cs Cons cs' show ?thesis by simp
          next
            case False
            with less.prems cs notq bs Cons obtain ch where
              res: "cons_result ch (parse_string_body cs') = Some (str, r)"
              by (auto split: option.splits)
            from cons_result_Some[OF res] obtain s' where "parse_string_body cs' = Some (s', r)" by blast
            moreover have "length cs' < length cs" using cs Cons by simp
            ultimately have "ends_in (\<lambda>c. c = (cu (CHR 0x22))) cs' r" using IH by blast
            then have "ends_in (\<lambda>c. c = (cu (CHR 0x22))) ([c, e] @ cs') r" by (rule ends_in_prepend)
            with cs Cons show ?thesis by simp
          qed
        qed
      next
        case False
        with less.prems cs notq have res: "cons_result c (parse_string_body cs0) = Some (str, r)"
          by (auto split: if_splits)
        from cons_result_Some[OF res] obtain s' where "parse_string_body cs0 = Some (s', r)" by blast
        moreover have "length cs0 < length cs" using cs by simp
        ultimately have "ends_in (\<lambda>c. c = (cu (CHR 0x22))) cs0 r" using IH by blast
        then show ?thesis using cs by (simp add: ends_in_Cons)
      qed
    qed
  qed
qed

lemma takeWhile_last: "takeWhile P xs \<noteq> [] \<Longrightarrow> P (last (takeWhile P xs))"
  by (metis last_in_set set_takeWhileD)

lemma digits_ends:
  "takeWhile is_digit s \<noteq> [] \<Longrightarrow> ends_in is_digit s (dropWhile is_digit s)"
proof -
  assume a: "takeWhile is_digit s \<noteq> []"
  have "s = takeWhile is_digit s @ dropWhile is_digit s" by simp
  with a takeWhile_last[OF a] show ?thesis unfolding ends_in_def by blast
qed

lemma parse_frac_ends:
  "parse_frac s = Some (fs, r) \<Longrightarrow> s = r \<or> ends_in is_digit s r"
proof (cases s)
  case Nil
  assume "parse_frac s = Some (fs, r)"
  with Nil show ?thesis by (simp add: parse_frac_def)
next
  case (Cons c t)
  assume a: "parse_frac s = Some (fs, r)"
  show ?thesis
  proof (cases "c = (cu (CHR ''.''))")
    case True
    with a Cons have "takeWhile is_digit t \<noteq> []" and "r = dropWhile is_digit t"
      by (auto simp add: parse_frac_def split: if_splits)
    with digits_ends[of t] Cons show ?thesis by (simp add: ends_in_Cons)
  next
    case False
    with a Cons show ?thesis by (simp add: parse_frac_def)
  qed
qed

lemma parse_exp_digits_ends:
  "parse_exp_digits neg s = Some (e, r) \<Longrightarrow> ends_in is_digit s r"
  using digits_ends[of s] by (auto simp add: parse_exp_digits_def split: if_splits)

lemma parse_exp_ends:
  "parse_exp s = Some (e, r) \<Longrightarrow> s = r \<or> ends_in is_digit s r"
proof (cases s)
  case Nil
  assume "parse_exp s = Some (e, r)"
  with Nil show ?thesis by (simp add: parse_exp_def)
next
  case (Cons c t)
  assume a: "parse_exp s = Some (e, r)"
  show ?thesis
  proof (cases "c = (cu (CHR ''e'')) \<or> c = (cu (CHR ''E''))")
    case True
    note isE = True
    show ?thesis
    proof (cases t)
      case Nil
      with a Cons isE show ?thesis by (auto simp add: parse_exp_def)
    next
      case (Cons sg t')
      with a \<open>s = c # t\<close> isE
      have "(\<exists>neg. parse_exp_digits neg t' = Some (e, r)) \<or> parse_exp_digits False t = Some (e, r)"
        by (auto simp add: parse_exp_def split: if_splits)
      then have "ends_in is_digit t r"
        using parse_exp_digits_ends Cons ends_in_Cons by blast
      with \<open>s = c # t\<close> show ?thesis by (simp add: ends_in_Cons)
    qed
  next
    case False
    with a Cons show ?thesis by (auto simp add: parse_exp_def)
  qed
qed

lemma parse_unsigned_ends:
  assumes "parse_unsigned s = Some (x, r)"
  shows "ends_in is_digit s r"
proof -
  from assms obtain fs s' e where
    ds: "takeWhile is_digit s \<noteq> []"
    and f: "parse_frac (dropWhile is_digit s) = Some (fs, s')"
    and ex: "parse_exp s' = Some (e, r)"
    by (auto simp add: parse_unsigned_def Let_def split: if_splits option.splits)
  from digits_ends[OF ds] have a: "ends_in is_digit s (dropWhile is_digit s)" .
  from parse_frac_ends[OF f] a have b: "ends_in is_digit s s'"
    using ends_in_trans by auto
  from parse_exp_ends[OF ex] b show ?thesis
    using ends_in_trans by auto
qed

lemma parse_number_ends:
  assumes "parse_number s = Some (x, r)"
  shows "ends_in is_digit s r"
proof (cases s)
  case Nil
  with assms show ?thesis by (simp add: parse_number_def)
next
  case (Cons c t)
  show ?thesis
  proof (cases "c = (cu (CHR ''-''))")
    case True
    with assms Cons obtain y where "parse_unsigned t = Some (y, r)"
      by (auto simp add: parse_number_def split: option.splits)
    from parse_unsigned_ends[OF this] Cons show ?thesis by (simp add: ends_in_Cons)
  next
    case False
    with assms Cons have "parse_unsigned s = Some (x, r)" by (simp add: parse_number_def)
    then show ?thesis by (rule parse_unsigned_ends)
  qed
qed

lemma startsWith_append: "startsWith s p \<Longrightarrow> s = p @ drop (length p) s"
  by (induction s p rule: startsWith.induct) auto

lemma parse_literal_ends:
  assumes "parse_literal w v s = Some (v', r)" and "w \<noteq> []" and "good (last w)"
  shows "ends_in good s r"
proof -
  from assms(1) have "startsWith s w" and "r = drop (length w) s"
    by (auto simp add: parse_literal_def split: if_splits)
  with startsWith_append[of s w] have "s = w @ r" by simp
  with assms(2,3) show ?thesis unfolding ends_in_def by blast
qed

lemma digit_visible: "is_digit c \<Longrightarrow> \<not> js_space c"
  by (auto simp add: is_digit_def js_space_def)

lemma ends_in_brace_visible:
  "ends_in (\<lambda>c. c = (cu (CHR ''}''))) s r \<Longrightarrow> ends_in (\<lambda>c. \<not> js_space c) s r"
  by (erule ends_in_weaken) (simp add: js_space_def)

lemma ends_in_bracket_visible:
  "ends_in (\<lambda>c. c = (cu (CHR '']''))) s r \<Longrightarrow> ends_in (\<lambda>c. \<not> js_space c) s r"
  by (erule ends_in_weaken) (simp add: js_space_def)

lemma ends_in_quote_visible:
  "ends_in (\<lambda>c. c = (cu (CHR 0x22))) s r \<Longrightarrow> ends_in (\<lambda>c. \<not> js_space c) s r"
  by (erule ends_in_weaken) (simp add: js_space_def)

lemma ends_in_digit_visible:
  "ends_in is_digit s r \<Longrightarrow> ends_in (\<lambda>c. \<not> js_space c) s r"
  by (erule ends_in_weaken) (rule digit_visible)

lemma parse_value_object:
  "skip_ws s = (cu (CHR ''{'')) # cs \<Longrightarrow>
   parse_value rnd (Suc n) s =
     (case skip_ws cs of
        [] \<Rightarrow> None
      | d # r \<Rightarrow>
          if d = (cu (CHR ''}'')) then Some (JObject [], r)
          else (case parse_members rnd n cs of
                  None \<Rightarrow> None
                | Some (ms, r') \<Rightarrow> Some (JObject ms, r')))"
  by simp

lemma parse_value_array:
  "skip_ws s = (cu (CHR ''['')) # cs \<Longrightarrow>
   parse_value rnd (Suc n) s =
     (case skip_ws cs of
        [] \<Rightarrow> None
      | d # r \<Rightarrow>
          if d = (cu (CHR '']'')) then Some (JArray [], r)
          else (case parse_elements rnd n cs of
                  None \<Rightarrow> None
                | Some (vs, r') \<Rightarrow> Some (JArray vs, r')))"
  by simp

lemma parse_value_string:
  "skip_ws s = (cu (CHR 0x22)) # cs \<Longrightarrow>
   parse_value rnd (Suc n) s =
     (case parse_string_body cs of
        None \<Rightarrow> None
      | Some (str, r) \<Rightarrow> Some (JString str, r))"
  by simp

lemma parse_value_true:
  "skip_ws s = (cu (CHR ''t'')) # cs \<Longrightarrow>
   parse_value rnd (Suc n) s = parse_literal (js ''true'') (JBool True) ((cu (CHR ''t'')) # cs)"
  by simp

lemma parse_value_false:
  "skip_ws s = (cu (CHR ''f'')) # cs \<Longrightarrow>
   parse_value rnd (Suc n) s = parse_literal (js ''false'') (JBool False) ((cu (CHR ''f'')) # cs)"
  by simp

lemma parse_value_null:
  "skip_ws s = (cu (CHR ''n'')) # cs \<Longrightarrow>
   parse_value rnd (Suc n) s = parse_literal (js ''null'') JNull ((cu (CHR ''n'')) # cs)"
  by simp

lemma parse_value_other:
  "skip_ws s = c # cs \<Longrightarrow> c \<noteq> (cu (CHR ''{'')) \<Longrightarrow> c \<noteq> (cu (CHR ''['')) \<Longrightarrow> c \<noteq> (cu (CHR 0x22)) \<Longrightarrow>
   c \<noteq> (cu (CHR ''t'')) \<Longrightarrow> c \<noteq> (cu (CHR ''f'')) \<Longrightarrow> c \<noteq> (cu (CHR ''n'')) \<Longrightarrow>
   parse_value rnd (Suc n) s =
     (if c = (cu (CHR ''-'')) \<or> is_digit c then
        (case parse_number (c # cs) of
           None \<Rightarrow> None
         | Some (x, r) \<Rightarrow> Some (JNumber (rnd x), r))
      else None)"
  by simp

lemma parse_value_step:
  assumes a: "parse_value rnd (Suc n) s = Some (v, r)"
    and elems: "\<And>s vs r. parse_elements rnd n s = Some (vs, r) \<Longrightarrow> ends_in (\<lambda>c. c = (cu (CHR '']''))) s r"
    and membs: "\<And>s ms r. parse_members rnd n s = Some (ms, r) \<Longrightarrow> ends_in (\<lambda>c. c = (cu (CHR ''}''))) s r"
  shows "ends_in (\<lambda>c. \<not> js_space c) s r"
proof (cases "skip_ws s")
  case Nil
  with a show ?thesis by simp
next
  case (Cons c cs)
  note sk = Cons
  consider (obj) "c = (cu (CHR ''{''))" | (arr) "c = (cu (CHR ''[''))" | (str) "c = (cu (CHR 0x22))"
    | (tru) "c = (cu (CHR ''t''))" | (fal) "c = (cu (CHR ''f''))" | (nul) "c = (cu (CHR ''n''))"
    | (num) "c \<noteq> (cu (CHR ''{''))" "c \<noteq> (cu (CHR ''[''))" "c \<noteq> (cu (CHR 0x22))" "c \<noteq> (cu (CHR ''t''))" "c \<noteq> (cu (CHR ''f''))" "c \<noteq> (cu (CHR ''n''))"
    by blast
  then have "ends_in (\<lambda>c. \<not> js_space c) (c # cs) r"
  proof cases
    case obj
    with sk have sk': "skip_ws s = (cu (CHR ''{'')) # cs" by simp
    note b = a[unfolded parse_value_object[OF sk']]
    show ?thesis
    proof (cases "skip_ws cs")
      case Nil
      with b show ?thesis by simp
    next
      case (Cons d r0)
      show ?thesis
      proof (cases "d = (cu (CHR ''}''))")
        case True
        with b Cons have "r = r0" by simp
        with Cons True have "ends_in (\<lambda>c. c = (cu (CHR ''}''))) cs r"
          using ends_in_skip_ws_single[of cs d r "\<lambda>c. c = (cu (CHR ''}''))"] by simp
        then have "ends_in (\<lambda>c. \<not> js_space c) cs r" by (rule ends_in_brace_visible)
        then show ?thesis by (rule ends_in_Cons)
      next
        case False
        with b Cons obtain ms where "parse_members rnd n cs = Some (ms, r)"
          by (auto split: option.splits)
        from membs[OF this] have "ends_in (\<lambda>c. \<not> js_space c) cs r"
          by (rule ends_in_brace_visible)
        then show ?thesis by (rule ends_in_Cons)
      qed
    qed
  next
    case arr
    with sk have sk': "skip_ws s = (cu (CHR ''['')) # cs" by simp
    note b = a[unfolded parse_value_array[OF sk']]
    show ?thesis
    proof (cases "skip_ws cs")
      case Nil
      with b show ?thesis by simp
    next
      case (Cons d r0)
      show ?thesis
      proof (cases "d = (cu (CHR '']''))")
        case True
        with b Cons have "r = r0" by simp
        with Cons True have "ends_in (\<lambda>c. c = (cu (CHR '']''))) cs r"
          using ends_in_skip_ws_single[of cs d r "\<lambda>c. c = (cu (CHR '']''))"] by simp
        then have "ends_in (\<lambda>c. \<not> js_space c) cs r" by (rule ends_in_bracket_visible)
        then show ?thesis by (rule ends_in_Cons)
      next
        case False
        with b Cons obtain vs where "parse_elements rnd n cs = Some (vs, r)"
          by (auto split: option.splits)
        from elems[OF this] have "ends_in (\<lambda>c. \<not> js_space c) cs r"
          by (rule ends_in_bracket_visible)
        then show ?thesis by (rule ends_in_Cons)
      qed
    qed
  next
    case str
    with sk have sk': "skip_ws s = (cu (CHR 0x22)) # cs" by simp
    note b = a[unfolded parse_value_string[OF sk']]
    then obtain x where "parse_string_body cs = Some (x, r)"
      by (auto split: option.splits)
    from parse_string_body_ends[OF this] have "ends_in (\<lambda>c. \<not> js_space c) cs r"
      by (rule ends_in_quote_visible)
    then show ?thesis by (rule ends_in_Cons)
  next
    case tru
    with sk have sk': "skip_ws s = (cu (CHR ''t'')) # cs" by simp
    note b = a[unfolded parse_value_true[OF sk']]
    have "\<not> js_space (last (js ''true''))" by (simp add: js_space_def)
    with parse_literal_ends[OF b, of "\<lambda>c. \<not> js_space c"] tru show ?thesis by simp
  next
    case fal
    with sk have sk': "skip_ws s = (cu (CHR ''f'')) # cs" by simp
    note b = a[unfolded parse_value_false[OF sk']]
    have "\<not> js_space (last (js ''false''))" by (simp add: js_space_def)
    with parse_literal_ends[OF b, of "\<lambda>c. \<not> js_space c"] fal show ?thesis by simp
  next
    case nul
    with sk have sk': "skip_ws s = (cu (CHR ''n'')) # cs" by simp
    note b = a[unfolded parse_value_null[OF sk']]
    have "\<not> js_space (last (js ''null''))" by (simp add: js_space_def)
    with parse_literal_ends[OF b, of "\<lambda>c. \<not> js_space c"] nul show ?thesis by simp
  next
    case num
    note b = a[unfolded parse_value_other[OF sk num]]
    then obtain x where "parse_number (c # cs) = Some (x, r)"
      by (auto split: option.splits if_splits)
    from parse_number_ends[OF this] show ?thesis
      by (rule ends_in_digit_visible)
  qed
  with sk show ?thesis using ends_in_skip_ws[of "\<lambda>c. \<not> js_space c" s r] by simp
qed

lemma parse_elements_step:
  assumes a: "parse_elements rnd (Suc n) s = Some (vs, r)"
    and vals: "\<And>s v r. parse_value rnd n s = Some (v, r) \<Longrightarrow> ends_in (\<lambda>c. \<not> js_space c) s r"
    and elems: "\<And>s vs r. parse_elements rnd n s = Some (vs, r) \<Longrightarrow> ends_in (\<lambda>c. c = (cu (CHR '']''))) s r"
  shows "ends_in (\<lambda>c. c = (cu (CHR '']''))) s r"
proof -
  from a obtain v r1 where v: "parse_value rnd n s = Some (v, r1)"
    by (auto split: option.splits)
  from a v obtain d r' where sk: "skip_ws r1 = d # r'"
    by (cases "skip_ws r1") auto
  have "ends_in (\<lambda>c. c = (cu (CHR '']''))) r1 r"
  proof (cases "d = (cu (CHR '',''))")
    case True
    with a v sk obtain ws where "parse_elements rnd n r' = Some (ws, r)"
      by (auto split: option.splits)
    from elems[OF this] sk show ?thesis by (rule ends_in_skip_ws_Cons[rotated])
  next
    case False
    with a v sk have "d = (cu (CHR '']''))" and "r = r'" by (auto split: if_splits)
    with sk show ?thesis using ends_in_skip_ws_single[of r1 d r "\<lambda>c. c = (cu (CHR '']''))"] by simp
  qed
  with vals[OF v] show ?thesis by (rule ends_in_trans)
qed

lemma parse_members_step:
  assumes a: "parse_members rnd (Suc n) s = Some (ms, r)"
    and vals: "\<And>s v r. parse_value rnd n s = Some (v, r) \<Longrightarrow> ends_in (\<lambda>c. \<not> js_space c) s r"
    and membs: "\<And>s ms r. parse_members rnd n s = Some (ms, r) \<Longrightarrow> ends_in (\<lambda>c. c = (cu (CHR ''}''))) s r"
  shows "ends_in (\<lambda>c. c = (cu (CHR ''}''))) s r"
proof -
  from a obtain q cs where sk: "skip_ws s = q # cs" by (cases "skip_ws s") auto
  with a have q: "q = (cu (CHR 0x22))" by (auto split: if_splits)
  from a sk q obtain k r0 where k: "parse_string_body cs = Some (k, r0)"
    by (auto split: option.splits)
  from a sk q k obtain col r1 where sk1: "skip_ws r0 = col # r1" by (cases "skip_ws r0") auto
  with a sk q k have col: "col = (cu (CHR '':''))" by (auto split: if_splits)
  from a sk q k sk1 col obtain v r2 where v: "parse_value rnd n r1 = Some (v, r2)"
    by (auto split: option.splits)
  from a sk q k sk1 col v obtain d r3 where sk2: "skip_ws r2 = d # r3" by (cases "skip_ws r2") auto
  have last: "ends_in (\<lambda>c. c = (cu (CHR ''}''))) r2 r"
  proof (cases "d = (cu (CHR '',''))")
    case True
    with a sk q k sk1 col v sk2 obtain ws where "parse_members rnd n r3 = Some (ws, r)"
      by (auto split: option.splits)
    from membs[OF this] sk2 show ?thesis by (rule ends_in_skip_ws_Cons[rotated])
  next
    case False
    with a sk q k sk1 col v sk2 have "d = (cu (CHR ''}''))" and "r = r3" by (auto split: if_splits)
    with sk2 show ?thesis using ends_in_skip_ws_single[of r2 d r "\<lambda>c. c = (cu (CHR ''}''))"] by simp
  qed
  from vals[OF v] last have "ends_in (\<lambda>c. c = (cu (CHR ''}''))) r1 r" by (rule ends_in_trans)
  with sk1 have "ends_in (\<lambda>c. c = (cu (CHR ''}''))) r0 r" by (rule ends_in_skip_ws_Cons)
  with parse_string_body_ends[OF k] have "ends_in (\<lambda>c. c = (cu (CHR ''}''))) cs r" by (rule ends_in_trans)
  with sk show ?thesis by (rule ends_in_skip_ws_Cons)
qed

lemma parse_ends:
  "(\<forall>s v r. parse_value rnd n s = Some (v, r) \<longrightarrow> ends_in (\<lambda>c. \<not> js_space c) s r)
   \<and> (\<forall>s vs r. parse_elements rnd n s = Some (vs, r) \<longrightarrow> ends_in (\<lambda>c. c = (cu (CHR '']''))) s r)
   \<and> (\<forall>s ms r. parse_members rnd n s = Some (ms, r) \<longrightarrow> ends_in (\<lambda>c. c = (cu (CHR ''}''))) s r)"
proof (induction n)
  case 0
  show ?case by simp
next
  case (Suc n)
  then show ?case
    using parse_value_step[of rnd n] parse_elements_step[of rnd n] parse_members_step[of rnd n]
    by blast
qed

lemma parse_value_ends:
  "parse_value rnd n s = Some (v, r) \<Longrightarrow> ends_in (\<lambda>c. \<not> js_space c) s r"
  using parse_ends[of rnd n] by blast

lemma value_start_visible: "value_start c \<Longrightarrow> \<not> js_space c \<and> c \<noteq> (cu (CHR ''`''))"
  by (auto simp add: value_start_def js_space_def is_digit_def)

lemma parse_value_start:
  assumes "parse_value rnd n s = Some (v, r)"
  shows "skip_ws s \<noteq> [] \<and> value_start (hd (skip_ws s))"
proof (cases n)
  case 0
  with assms show ?thesis by simp
next
  case (Suc m)
  show ?thesis
  proof (cases "skip_ws s")
    case Nil
    with assms Suc show ?thesis by simp
  next
    case (Cons c cs)
    show ?thesis
    proof (cases "c = (cu (CHR ''{'')) \<or> c = (cu (CHR ''['')) \<or> c = (cu (CHR 0x22)) \<or> c = (cu (CHR ''t'')) \<or> c = (cu (CHR ''f'')) \<or> c = (cu (CHR ''n''))")
      case True
      with Cons show ?thesis by (auto simp add: value_start_def)
    next
      case False
      with assms[unfolded Suc] parse_value_other[OF Cons, of rnd m]
      have "c = (cu (CHR ''-'')) \<or> is_digit c" by (auto split: if_splits)
      with Cons show ?thesis by (auto simp add: value_start_def)
    qed
  qed
qed

section \<open>The bound of the descent\<close>

text \<open>
  The bound that \<open>json_parse\<close> gives the descent is never what makes it fail: a
  result reached with any bound is reached with every bound above twice the length
  of the text.
\<close>

lemma ends_in_shorter: "ends_in good s r \<Longrightarrow> length r < length s"
  by (auto simp add: ends_in_def)

lemma skip_ws_Cons_shorter: "skip_ws s = c # cs \<Longrightarrow> length cs < length s"
proof -
  assume a: "skip_ws s = c # cs"
  have "length (skip_ws s) \<le> length s" unfolding skip_ws_def by (rule length_dropWhile_le)
  with a show ?thesis by simp
qed

lemma parse_value_fuel_step:
  assumes a: "parse_value rnd (Suc n) s = Some res"
    and m: "2 * length s + 1 \<le> m"
    and elems: "\<And>s res m. parse_elements rnd n s = Some res \<Longrightarrow> 2 * length s + 2 \<le> m
                  \<Longrightarrow> parse_elements rnd m s = Some res"
    and membs: "\<And>s res m. parse_members rnd n s = Some res \<Longrightarrow> 2 * length s + 2 \<le> m
                  \<Longrightarrow> parse_members rnd m s = Some res"
  shows "parse_value rnd m s = Some res"
proof -
  from m obtain k where k: "m = Suc k" by (cases m) auto
  show ?thesis
  proof (cases "skip_ws s")
    case Nil
    with a show ?thesis by simp
  next
    case (Cons c cs)
    note sk = Cons
    from skip_ws_Cons_shorter[OF sk] m k have fuel: "2 * length cs + 2 \<le> k" by simp
    consider (obj) "c = (cu (CHR ''{''))" | (arr) "c = (cu (CHR ''[''))" | (str) "c = (cu (CHR 0x22))"
      | (tru) "c = (cu (CHR ''t''))" | (fal) "c = (cu (CHR ''f''))" | (nul) "c = (cu (CHR ''n''))"
      | (num) "c \<noteq> (cu (CHR ''{''))" "c \<noteq> (cu (CHR ''[''))" "c \<noteq> (cu (CHR 0x22))" "c \<noteq> (cu (CHR ''t''))" "c \<noteq> (cu (CHR ''f''))" "c \<noteq> (cu (CHR ''n''))"
      by blast
    then have "parse_value rnd (Suc k) s = Some res"
    proof cases
      case obj
      with sk have sk': "skip_ws s = (cu (CHR ''{'')) # cs" by simp
      note b = a[unfolded parse_value_object[OF sk']]
      show ?thesis
      proof (cases "skip_ws cs")
        case Nil
        with b show ?thesis by simp
      next
        case (Cons d r0)
        show ?thesis
        proof (cases "d = (cu (CHR ''}''))")
          case True
          with b Cons show ?thesis unfolding parse_value_object[OF sk'] by simp
        next
          case False
          with b Cons obtain ms r' where p: "parse_members rnd n cs = Some (ms, r')"
            by (auto split: option.splits)
          from membs[OF p fuel] p b Cons False show ?thesis
            unfolding parse_value_object[OF sk'] by simp
        qed
      qed
    next
      case arr
      with sk have sk': "skip_ws s = (cu (CHR ''['')) # cs" by simp
      note b = a[unfolded parse_value_array[OF sk']]
      show ?thesis
      proof (cases "skip_ws cs")
        case Nil
        with b show ?thesis by simp
      next
        case (Cons d r0)
        show ?thesis
        proof (cases "d = (cu (CHR '']''))")
          case True
          with b Cons show ?thesis unfolding parse_value_array[OF sk'] by simp
        next
          case False
          with b Cons obtain vs r' where p: "parse_elements rnd n cs = Some (vs, r')"
            by (auto split: option.splits)
          from elems[OF p fuel] p b Cons False show ?thesis
            unfolding parse_value_array[OF sk'] by simp
        qed
      qed
    next
      case str
      with sk have sk': "skip_ws s = (cu (CHR 0x22)) # cs" by simp
      from a show ?thesis unfolding parse_value_string[OF sk'] .
    next
      case tru
      with sk have sk': "skip_ws s = (cu (CHR ''t'')) # cs" by simp
      from a show ?thesis unfolding parse_value_true[OF sk'] .
    next
      case fal
      with sk have sk': "skip_ws s = (cu (CHR ''f'')) # cs" by simp
      from a show ?thesis unfolding parse_value_false[OF sk'] .
    next
      case nul
      with sk have sk': "skip_ws s = (cu (CHR ''n'')) # cs" by simp
      from a show ?thesis unfolding parse_value_null[OF sk'] .
    next
      case num
      from a show ?thesis unfolding parse_value_other[OF sk num] .
    qed
    with k show ?thesis by simp
  qed
qed

lemma parse_elements_fuel_step:
  assumes a: "parse_elements rnd (Suc n) s = Some res"
    and m: "2 * length s + 2 \<le> m"
    and vals: "\<And>s res m. parse_value rnd n s = Some res \<Longrightarrow> 2 * length s + 1 \<le> m
                  \<Longrightarrow> parse_value rnd m s = Some res"
    and elems: "\<And>s res m. parse_elements rnd n s = Some res \<Longrightarrow> 2 * length s + 2 \<le> m
                  \<Longrightarrow> parse_elements rnd m s = Some res"
  shows "parse_elements rnd m s = Some res"
proof -
  from m obtain k where k: "m = Suc k" by (cases m) auto
  from a obtain v r1 where v: "parse_value rnd n s = Some (v, r1)"
    by (auto split: option.splits)
  from m k have "2 * length s + 1 \<le> k" by simp
  from vals[OF v this] have vk: "parse_value rnd k s = Some (v, r1)" .
  from parse_value_ends[OF v] have l1: "length r1 < length s" by (rule ends_in_shorter)
  from a v obtain d r' where sk: "skip_ws r1 = d # r'"
    by (cases "skip_ws r1") auto
  from skip_ws_Cons_shorter[OF sk] l1 m k have fuel: "2 * length r' + 2 \<le> k" by simp
  have "parse_elements rnd (Suc k) s = Some res"
  proof (cases "d = (cu (CHR '',''))")
    case True
    with a v sk obtain ws r'' where p: "parse_elements rnd n r' = Some (ws, r'')"
      by (auto split: option.splits)
    from elems[OF p fuel] p a v vk sk True show ?thesis by simp
  next
    case False
    with a v vk sk show ?thesis by (simp split: if_splits)
  qed
  with k show ?thesis by simp
qed

lemma parse_members_fuel_step:
  assumes a: "parse_members rnd (Suc n) s = Some res"
    and m: "2 * length s + 2 \<le> m"
    and vals: "\<And>s res m. parse_value rnd n s = Some res \<Longrightarrow> 2 * length s + 1 \<le> m
                  \<Longrightarrow> parse_value rnd m s = Some res"
    and membs: "\<And>s res m. parse_members rnd n s = Some res \<Longrightarrow> 2 * length s + 2 \<le> m
                  \<Longrightarrow> parse_members rnd m s = Some res"
  shows "parse_members rnd m s = Some res"
proof -
  from m obtain k where k: "m = Suc k" by (cases m) auto
  from a obtain q cs where sk: "skip_ws s = q # cs" by (cases "skip_ws s") auto
  with a have q: "q = (cu (CHR 0x22))" by (auto split: if_splits)
  from a sk q obtain key r0 where key: "parse_string_body cs = Some (key, r0)"
    by (auto split: option.splits)
  from a sk q key obtain col r1 where sk1: "skip_ws r0 = col # r1" by (cases "skip_ws r0") auto
  with a sk q key have col: "col = (cu (CHR '':''))" by (auto split: if_splits)
  from a sk q key sk1 col obtain v r2 where v: "parse_value rnd n r1 = Some (v, r2)"
    by (auto split: option.splits)
  from a sk q key sk1 col v obtain d r3 where sk2: "skip_ws r2 = d # r3" by (cases "skip_ws r2") auto
  have l0: "length cs < length s" using sk by (rule skip_ws_Cons_shorter)
  have l1: "length r0 < length cs" using parse_string_body_ends[OF key] by (rule ends_in_shorter)
  have l2: "length r1 < length r0" using sk1 by (rule skip_ws_Cons_shorter)
  have l3: "length r2 < length r1" using parse_value_ends[OF v] by (rule ends_in_shorter)
  have l4: "length r3 < length r2" using sk2 by (rule skip_ws_Cons_shorter)
  from l0 l1 l2 m k have "2 * length r1 + 1 \<le> k" by simp
  from vals[OF v this] have vk: "parse_value rnd k r1 = Some (v, r2)" .
  from l0 l1 l2 l3 l4 m k have fuel: "2 * length r3 + 2 \<le> k" by simp
  have "parse_members rnd (Suc k) s = Some res"
  proof (cases "d = (cu (CHR '',''))")
    case True
    with a sk q key sk1 col v sk2 obtain ws r4 where p: "parse_members rnd n r3 = Some (ws, r4)"
      by (auto split: option.splits)
    from membs[OF p fuel] p a sk q key sk1 col v vk sk2 True show ?thesis by simp
  next
    case False
    with a sk q key sk1 col v vk sk2 show ?thesis by (simp split: if_splits)
  qed
  with k show ?thesis by simp
qed

lemma parse_fuel:
  "(\<forall>s res m. parse_value rnd n s = Some res \<longrightarrow> 2 * length s + 1 \<le> m
      \<longrightarrow> parse_value rnd m s = Some res)
   \<and> (\<forall>s res m. parse_elements rnd n s = Some res \<longrightarrow> 2 * length s + 2 \<le> m
      \<longrightarrow> parse_elements rnd m s = Some res)
   \<and> (\<forall>s res m. parse_members rnd n s = Some res \<longrightarrow> 2 * length s + 2 \<le> m
      \<longrightarrow> parse_members rnd m s = Some res)"
proof (induction n)
  case 0
  show ?case by simp
next
  case (Suc n)
  have v: "parse_value rnd m s = Some res"
    if "parse_value rnd (Suc n) s = Some res" "2 * length s + 1 \<le> m" for s res m
    using that Suc by (intro parse_value_fuel_step[of rnd n s res m]) blast+
  have e: "parse_elements rnd m s = Some res"
    if "parse_elements rnd (Suc n) s = Some res" "2 * length s + 2 \<le> m" for s res m
    using that Suc by (intro parse_elements_fuel_step[of rnd n s res m]) blast+
  have b: "parse_members rnd m s = Some res"
    if "parse_members rnd (Suc n) s = Some res" "2 * length s + 2 \<le> m" for s res m
    using that Suc by (intro parse_members_fuel_step[of rnd n s res m]) blast+
  from v e b show ?case by blast
qed

lemma json_parse_any_bound:
  assumes "parse_value (toDouble rt) n (trim_json_ws s) = Some (v, [])"
  shows "json_parse rt s = Some v"
proof -
  have "2 * length (trim_json_ws s) + 1 \<le> 2 * length (trim_json_ws s) + 2" by simp
  with parse_fuel[of "toDouble rt" n] assms
  have "parse_value (toDouble rt) (2 * length (trim_json_ws s) + 2) (trim_json_ws s) = Some (v, [])"
    by blast
  then show ?thesis by (simp add: json_parse_def del: parse_value.simps)
qed

section \<open>Trimming and fences\<close>

lemma json_ws_js_space: "json_ws c \<Longrightarrow> js_space c"
  by (auto simp add: json_ws_def js_space_def)

lemma strip_decompose:
  "s = takeWhile P s @ rev (dropWhile P (rev (dropWhile P s))) @ rev (takeWhile P (rev (dropWhile P s)))"
proof -
  define d where "d = dropWhile P s"
  have "d = rev (dropWhile P (rev d)) @ rev (takeWhile P (rev d))"
    by (metis rev_append rev_rev_ident takeWhile_dropWhile_id)
  moreover have "s = takeWhile P s @ d" by (simp add: d_def)
  ultimately show ?thesis unfolding d_def by simp
qed

lemma strip_padded:
  assumes w1: "\<And>x. x \<in> set w1 \<Longrightarrow> P x" and w2: "\<And>x. x \<in> set w2 \<Longrightarrow> P x"
    and c: "c \<noteq> []" "\<not> P (hd c)" "\<not> P (last c)"
  shows "rev (dropWhile P (rev (dropWhile P (w1 @ c @ w2)))) = c"
proof -
  obtain x xs where cx: "c = x # xs" using c(1) by (cases c) auto
  have "dropWhile P (w1 @ c @ w2) = dropWhile P (c @ w2)" using w1 by (simp add: dropWhile_append2)
  also have "\<dots> = c @ w2" using cx c(2) by simp
  finally have a: "dropWhile P (w1 @ c @ w2) = c @ w2" .
  have r: "rev c \<noteq> []" "\<not> P (hd (rev c))" using c by (simp_all add: hd_rev)
  have "dropWhile P (rev (c @ w2)) = dropWhile P (rev w2 @ rev c)" by simp
  also have "\<dots> = dropWhile P (rev c)" by (rule dropWhile_append2) (simp add: w2)
  also have "\<dots> = rev c" using r dropWhile_no_head[of "rev c" P] by simp
  finally show ?thesis using a by simp
qed

lemma strip_idem:
  "rev (dropWhile P (rev (dropWhile P (rev (dropWhile P (rev (dropWhile P s))))))) =
   rev (dropWhile P (rev (dropWhile P s)))"
proof -
  define t where "t = rev (dropWhile P (rev (dropWhile P s)))"
  have "rev (dropWhile P (rev (dropWhile P t))) = t"
  proof (cases "t = []")
    case True
    then show ?thesis by simp
  next
    case False
    from strip_ends[OF t_def False] strip_fixed[OF False] show ?thesis by blast
  qed
  then show ?thesis unfolding t_def .
qed

lemma strip_Cons_head:
  assumes "\<not> P x"
  shows "rev (dropWhile P (rev (dropWhile P (x # xs)))) = x # rev (dropWhile P (rev xs))"
proof -
  have "dropWhile P (x # xs) = x # xs" using assms by simp
  moreover have "dropWhile P (rev xs @ [x]) = dropWhile P (rev xs) @ [x]"
    using assms by (simp add: dropWhile_append3)
  ultimately show ?thesis by simp
qed

lemma json_parse_core:
  assumes "json_parse rt p = Some v"
  shows "trim_json_ws p \<noteq> [] \<and> \<not> js_space (hd (trim_json_ws p))
         \<and> \<not> js_space (last (trim_json_ws p)) \<and> hd (trim_json_ws p) \<noteq> (cu (CHR ''`''))"
proof -
  define c where "c = trim_json_ws p"
  from assms have pv: "parse_value (toDouble rt) (2 * length c + 2) c = Some (v, [])"
    by (auto simp add: json_parse_def c_def Let_def split: option.splits if_splits)
  from parse_value_ends[OF pv] have ne: "c \<noteq> []" and la: "\<not> js_space (last c)"
    by (auto simp add: ends_in_def)
  have "c = rev (dropWhile json_ws (rev (dropWhile json_ws p)))" by (simp add: c_def trim_json_ws_def)
  from strip_ends[OF this ne] have "\<not> json_ws (hd c)" by simp
  then have "skip_ws c = c" using dropWhile_no_head[of c json_ws] by (simp add: skip_ws_def)
  with parse_value_start[OF pv] have "value_start (hd c)" by simp
  with value_start_visible ne la show ?thesis unfolding c_def by blast
qed

lemma json_parse_trim_json_ws: "json_parse rt (trim_json_ws p) = json_parse rt p"
  using strip_idem[of json_ws p] by (simp add: json_parse_def trim_json_ws_def)

lemma trim_valid_json:
  assumes "json_parse rt p = Some v"
  shows "trim p = trim_json_ws p"
proof -
  define c where "c = trim_json_ws p"
  define w1 where "w1 = takeWhile json_ws p"
  define w2 where "w2 = rev (takeWhile json_ws (rev (dropWhile json_ws p)))"
  have p: "p = w1 @ c @ w2"
    using strip_decompose[of p json_ws] by (simp add: c_def w1_def w2_def trim_json_ws_def)
  have a: "\<And>x. x \<in> set w1 \<Longrightarrow> js_space x"
    by (auto simp add: w1_def json_ws_js_space dest: set_takeWhileD)
  have b: "\<And>x. x \<in> set w2 \<Longrightarrow> js_space x"
    by (auto simp add: w2_def json_ws_js_space dest: set_takeWhileD)
  from json_parse_core[OF assms]
  have "c \<noteq> []" "\<not> js_space (hd c)" "\<not> js_space (last c)" by (simp_all add: c_def)
  from strip_padded[of w1 js_space w2 c, OF a b this]
  have "trim (w1 @ c @ w2) = c" by (simp add: trim_def)
  moreover have "trim p = trim (w1 @ c @ w2)" using p by simp
  ultimately have "trim p = c" by simp
  then show ?thesis by (simp add: c_def)
qed

lemma startsWith_backtick: "s \<noteq> [] \<Longrightarrow> hd s \<noteq> (cu (CHR ''`'')) \<Longrightarrow> \<not> startsWith s ((cu (CHR ''`'')) # q)"
  by (cases s) auto

lemma gemini_jsonContent_plain:
  assumes "json_parse rt p = Some v"
  shows "gemini_jsonContent p = trim_json_ws p"
proof -
  from json_parse_core[OF assms] trim_valid_json[OF assms]
  have "trim p \<noteq> []" and "hd (trim p) \<noteq> (cu (CHR ''`''))" by simp_all
  from startsWith_backtick[OF this] trim_valid_json[OF assms]
  show ?thesis by (simp add: gemini_jsonContent_def)
qed

lemma replace_fence_end_stripped: "replace_fence_end (p @ (js ''\<newline>```'')) = p"
  by (simp add: replace_fence_end_def endsWith_def)

lemma trim_fenced: "trim ((cu (CHR ''`'')) # q @ (js ''```'')) = (cu (CHR ''`'')) # q @ (js ''```'')"
proof -
  have "\<not> js_space (hd ((cu (CHR ''`'')) # q @ (js ''```'')))" by (simp add: js_space_def)
  moreover have "\<not> js_space (last ((cu (CHR ''`'')) # q @ (js ''```'')))" by (simp add: js_space_def)
  ultimately show ?thesis using strip_fixed[of "(cu (CHR ''`'')) # q @ (js ''```'')" js_space]
    by (simp add: trim_def)
qed

lemma gemini_jsonContent_json_fence:
  "gemini_jsonContent ((js ''```json\<newline>'') @ p @ (js ''\<newline>```'')) = p"
proof -
  have "trim ((js ''```json\<newline>'') @ p @ (js ''\<newline>```'')) = (js ''```json\<newline>'') @ p @ (js ''\<newline>```'')"
    using trim_fenced[of "(js ''``json\<newline>'') @ p @ (js ''\<newline>'')"] by simp
  then show ?thesis
    using replace_fence_end_stripped[of p]
    by (simp add: gemini_jsonContent_def replace_fence_start_def)
qed

lemma gemini_jsonContent_bare_fence:
  "gemini_jsonContent ((js ''```\<newline>'') @ p @ (js ''\<newline>```'')) = p"
proof -
  have "trim ((js ''```\<newline>'') @ p @ (js ''\<newline>```'')) = (js ''```\<newline>'') @ p @ (js ''\<newline>```'')"
    using trim_fenced[of "(js ''``\<newline>'') @ p @ (js ''\<newline>'')"] by simp
  then show ?thesis
    using replace_fence_end_stripped[of p]
    by (simp add: gemini_jsonContent_def replace_fence_start_def)
qed

lemma json_parse_backtick: "json_parse rt ((cu (CHR ''`'')) # s) = None"
proof -
  have nw: "\<not> json_ws (cu (CHR ''`''))" by (simp add: json_ws_def)
  define ys where "ys = rev (dropWhile json_ws (rev s))"
  have c: "trim_json_ws ((cu (CHR ''`'')) # s) = (cu (CHR ''`'')) # ys"
    using nw strip_Cons_head[where P = json_ws and x = "(cu (CHR ''`''))" and xs = s]
    by (simp add: trim_json_ws_def ys_def)
  have sk: "skip_ws ((cu (CHR ''`'')) # ys) = (cu (CHR ''`'')) # ys" using nw by (simp add: skip_ws_def)
  have pv: "parse_value (toDouble rt) (Suc m) ((cu (CHR ''`'')) # ys) = None" for m
    using parse_value_other[OF sk, of "toDouble rt" m]
    by (simp add: is_digit_def del: parse_value.simps)
  have n: "2 * length ((cu (CHR ''`'')) # ys) + 2 = Suc (2 * length ((cu (CHR ''`'')) # ys) + 1)" by simp
  show ?thesis unfolding json_parse_def c Let_def n pv by simp
qed


text \<open>A fence without line breaks around the payload.\<close>

lemma json_parse_same_core:
  "trim_json_ws a = trim_json_ws b \<Longrightarrow> json_parse rt a = json_parse rt b"
  by (simp add: json_parse_def)

lemma trim_json_ws_leading: "json_ws c \<Longrightarrow> trim_json_ws (c # s) = trim_json_ws s"
  by (simp add: trim_json_ws_def)

lemma trim_json_ws_trailing:
  assumes "json_ws c"
  shows "trim_json_ws (s @ [c]) = trim_json_ws s"
proof (cases "\<forall>x\<in>set s. json_ws x")
  case True
  then have a: "dropWhile json_ws (s @ [c]) = []" and b: "dropWhile json_ws s = []"
    using assms by simp_all
  show ?thesis unfolding trim_json_ws_def by (simp only: a b)
next
  case False
  then obtain x where "x \<in> set s" and "\<not> json_ws x" by blast
  then have "dropWhile json_ws (s @ [c]) = dropWhile json_ws s @ [c]"
    by (rule dropWhile_append1)
  then show ?thesis using assms by (simp add: trim_json_ws_def)
qed

lemma endsWith_newline_fence:
  "endsWith (q @ (js ''```'')) (js ''\<newline>```'') \<longleftrightarrow> q \<noteq> [] \<and> last q = (cu (CHR 0x0A))"
proof (cases q rule: rev_cases)
  case Nil
  then show ?thesis by (simp add: endsWith_def)
next
  case (snoc ys y)
  then show ?thesis by (auto simp add: endsWith_def)
qed

lemma replace_fence_end_tight:
  "trim_json_ws (replace_fence_end (q @ (js ''```''))) = trim_json_ws q"
proof (cases "q \<noteq> [] \<and> last q = (cu (CHR 0x0A))")
  case True
  then have q: "q = butlast q @ [(cu (CHR 0x0A))]" by (metis append_butlast_last_id)
  have "replace_fence_end (q @ (js ''```'')) = butlast q"
    using True endsWith_newline_fence[of q]
    by (simp add: replace_fence_end_def butlast_conv_take)
  moreover have "trim_json_ws (butlast q @ [(cu (CHR 0x0A))]) = trim_json_ws (butlast q)"
    by (rule trim_json_ws_trailing) (simp add: json_ws_def)
  ultimately show ?thesis using q by simp
next
  case False
  then have "\<not> endsWith (q @ (js ''```'')) (js ''\<newline>```'')"
    using endsWith_newline_fence[of q] by blast
  moreover have "endsWith (q @ (js ''```'')) (js ''```'')" by (simp add: endsWith_def)
  ultimately have "replace_fence_end (q @ (js ''```'')) = q"
    by (simp add: replace_fence_end_def)
  then show ?thesis by simp
qed

lemma gemini_jsonContent_tight_fence:
  "json_parse rt (gemini_jsonContent ((js ''```json'') @ p @ (js ''```''))) = json_parse rt p"
proof -
  have t: "trim ((js ''```json'') @ p @ (js ''```'')) = (js ''```json'') @ p @ (js ''```'')"
    using trim_fenced[of "(js ''``json'') @ p"] by simp
  define q where "q = (case p of [] \<Rightarrow> [] | c # r \<Rightarrow> if c = (cu (CHR 0x0A)) then r else c # r)"
  have start: "replace_fence_start (js ''```json'') ((js ''```json'') @ p @ (js ''```'')) = q @ (js ''```'')"
    by (cases p) (simp_all add: replace_fence_start_def q_def)
  have "trim_json_ws q = trim_json_ws p"
    by (cases p) (simp_all add: q_def trim_json_ws_leading json_ws_def)
  with replace_fence_end_tight[of q]
  have "trim_json_ws (replace_fence_end (q @ (js ''```''))) = trim_json_ws p" by simp
  then have "json_parse rt (replace_fence_end (q @ (js ''```''))) = json_parse rt p"
    by (rule json_parse_same_core)
  then show ?thesis using t start by (simp add: gemini_jsonContent_def)
qed

section \<open>Fence stripping\<close>

text \<open>
  C7. For every text that decodes as JSON, the text wrapped in a \<open>```json\<close> fence,
  with or without line breaks between fence and payload, and the text itself all
  pass the fence stripping of the Gemini adapter and then decode to the value of the
  text; \<open>analyzeResume\<close> returns the same for the fenced and the plain text.
\<close>

theorem fence_stripping_preserves_decoding:
  assumes "json_parse rt p = Some v"
  shows "json_parse rt (gemini_jsonContent ((js ''```json\<newline>'') @ p @ (js ''\<newline>```''))) = Some v
         \<and> json_parse rt (gemini_jsonContent ((js ''```json'') @ p @ (js ''```''))) = Some v
         \<and> json_parse rt (gemini_jsonContent p) = Some v
         \<and> snd (gemini_analyzeResume rt apiKey (replies ((js ''```json\<newline>'') @ p @ (js ''\<newline>```''))) resumeText jobDescription)
           = snd (gemini_analyzeResume rt apiKey (replies p) resumeText jobDescription)"
proof -
  have ne: "p \<noteq> []" using assms json_parse_Nil[of rt] by auto
  have a: "json_parse rt (gemini_jsonContent ((js ''```json\<newline>'') @ p @ (js ''\<newline>```''))) = Some v"
    using assms by (simp only: gemini_jsonContent_json_fence)
  have b: "json_parse rt (gemini_jsonContent p) = Some v"
    using assms by (simp only: gemini_jsonContent_plain[OF assms] json_parse_trim_json_ws)
  have "analysis_decode rt (gemini_jsonContent ((js ''```json\<newline>'') @ p @ (js ''\<newline>```'')))
        = analysis_decode rt (gemini_jsonContent p)"
    using a b by (simp add: analysis_decode_def)
  then have "snd (gemini_analyzeResume rt apiKey (replies ((js ''```json\<newline>'') @ p @ (js ''\<newline>```''))) resumeText jobDescription)
           = snd (gemini_analyzeResume rt apiKey (replies p) resumeText jobDescription)"
    using ne by (simp add: gemini_analyzeResume_def gemini_analyzeResume_try_def replies_def)
  moreover have "json_parse rt (gemini_jsonContent ((js ''```json'') @ p @ (js ''```''))) = Some v"
    using assms by (simp only: gemini_jsonContent_tight_fence)
  ultimately show ?thesis using a b by blast
qed

theorem fence_stripping_preserves_decoding_witness:
  \<open>json_parse sample_runtime
      (gemini_jsonContent ((js ''```json\<newline>'') @ (js ''{"matchPercentage":50,"matchedSkills":["Python"]}'') @ (js ''\<newline>```'')))
      = Some (JObject [((js ''matchPercentage''), JNumber 50), ((js ''matchedSkills''), JArray [JString (js ''Python'')])])
    \<and> json_parse sample_runtime (gemini_jsonContent (js ''{"matchPercentage":50,"matchedSkills":["Python"]}''))
      = Some (JObject [((js ''matchPercentage''), JNumber 50), ((js ''matchedSkills''), JArray [JString (js ''Python'')])])\<close>
proof -
  have d: \<open>json_parse sample_runtime (js ''{"matchPercentage":50,"matchedSkills":["Python"]}'')
           = Some (JObject [((js ''matchPercentage''), JNumber 50), ((js ''matchedSkills''), JArray [JString (js ''Python'')])])\<close>
    by code_simp
  from fence_stripping_preserves_decoding[OF d] show ?thesis by blast
qed

text \<open>
  C3, as the code has it. Fences are stripped in the Gemini adapter only: there a
  payload between a leading \<open>```json\<close> or bare \<open>```\<close> line and a closing \<open>```\<close> line
  is what gets decoded. \<open>parseResumeFromText\<close> decodes the content as it comes, so a
  content that begins with a fence is no JSON: the call throws after its one
  request, with the \<open>Failed to parse JSON response\<close> error unless the wording of the
  syntax error matches the rate-limit or credential patterns of the catch block.
\<close>

theorem fences_stripped_by_gemini_only:
  assumes key: "\<not> falsy apiKey"
    and reply: "create (parser_request resumeText) = Inr (Some ((js ''```'') @ s))"
  shows "gemini_jsonContent ((js ''```json\<newline>'') @ p @ (js ''\<newline>```'')) = p
       \<and> gemini_jsonContent ((js ''```\<newline>'') @ p @ (js ''\<newline>```'')) = p
       \<and> json_parse rt ((js ''```'') @ s) = None
       \<and> parseResumeFromText rt apiKey create resumeText =
          ([parser_request resumeText],
           Inl (if groq_rate_limit_text rt
                     ((js ''Failed to parse JSON response: '') @ syntaxErrorMessage rt ((js ''```'') @ s))
                then Error (js ''Resume parser API rate limit exceeded. Please wait a moment and try again.'')
                else if groq_credential_text rt
                     ((js ''Failed to parse JSON response: '') @ syntaxErrorMessage rt ((js ''```'') @ s))
                then Error (js ''Resume parser API authentication failed. Please check that your GROQ_API_KEY is valid.'')
                else Error ((js ''Failed to parse JSON response: '') @ syntaxErrorMessage rt ((js ''```'') @ s))))"
proof -
  have n: "json_parse rt ((js ''```'') @ s) = None"
    using json_parse_backtick[of rt "(js ''``'') @ s"] by simp
  have "parseResumeFromText_try rt (create (parser_request resumeText)) =
          Inl (Error ((js ''Failed to parse JSON response: '') @ syntaxErrorMessage rt ((js ''```'') @ s)))"
    using reply n by (simp add: parseResumeFromText_try_def)
  then have "parseResumeFromText rt apiKey create resumeText =
          ([parser_request resumeText],
           Inl (parseResumeFromText_catch rt
                  (Error ((js ''Failed to parse JSON response: '') @ syntaxErrorMessage rt ((js ''```'') @ s)))))"
    using key by (simp add: parseResumeFromText_def)
  then show ?thesis
    using n gemini_jsonContent_json_fence[of p] gemini_jsonContent_bare_fence[of p]
    by (simp add: parseResumeFromText_catch_def)
qed

theorem fences_stripped_by_gemini_only_witness:
  \<open>gemini_jsonContent ((js ''```json\<newline>'') @ (js ''{"skills":[]}'') @ (js ''\<newline>```'')) = (js ''{"skills":[]}'')
   \<and> parseResumeFromText sample_runtime (Some (js ''gsk_key''))
        (replies ((js ''```'') @ (js ''json\<newline>{"skills":[]}\<newline>```''))) (js ''Python developer'')
      = ([parser_request (js ''Python developer'')],
         Inl (Error (js ''Failed to parse JSON response: Unexpected token'')))\<close>
proof -
  have k: "\<not> falsy (Some (js ''gsk_key''))" by (simp add: falsy_def)
  have r: \<open>replies ((js ''```'') @ (js ''json\<newline>{"skills":[]}\<newline>```'')) (parser_request (js ''Python developer''))
           = Inr (Some ((js ''```'') @ (js ''json\<newline>{"skills":[]}\<newline>```'')))\<close>
    by (simp add: replies_def)
  have m: "\<not> groq_rate_limit_text sample_runtime (js ''Failed to parse JSON response: Unexpected token'')"
          "\<not> groq_credential_text sample_runtime (js ''Failed to parse JSON response: Unexpected token'')"
    by code_simp+
  show ?thesis
    using k r m
      fences_stripped_by_gemini_only[where apiKey = "Some (js ''gsk_key'')"
        and create = \<open>replies ((js ''```'') @ (js ''json\<newline>{"skills":[]}\<newline>```''))\<close>
        and resumeText = "(js ''Python developer'')" and s = \<open>(js ''json\<newline>{"skills":[]}\<newline>```'')\<close>
        and rt = sample_runtime and p = \<open>(js ''{"skills":[]}'')\<close>]
    by (simp add: sample_runtime_def)
qed

text \<open>
  The claim as the specification states it fails for the extraction stage: the
  fenced response is rejected where the same response without fences is accepted.
\<close>

theorem fenced_extraction_counterexample:
  \<open>parseResumeFromText sample_runtime (Some (js ''gsk_key''))
      (replies (js ''```json\<newline>{"skills":["Python"],"experience":[],"education":[],"contact":"a@b.c"}\<newline>```''))
      (js ''Python developer'')
    = ([parser_request (js ''Python developer'')],
       Inl (Error (js ''Failed to parse JSON response: Unexpected token'')))
   \<and> parseResumeFromText sample_runtime (Some (js ''gsk_key''))
      (replies (js ''{"skills":["Python"],"experience":[],"education":[],"contact":"a@b.c"}''))
      (js ''Python developer'')
    = ([parser_request (js ''Python developer'')],
       Inr \<lparr>skills = [(js ''Python'')], experience = [], education = [], contact = (js ''a@b.c'')\<rparr>)\<close>
  by code_simp

section \<open>Blank input\<close>





section \<open>Provider errors\<close>

text \<open>
  C5, as the code has it. Each catch block maps an error of the provider, an \<open>Error\<close>
  with a message and possibly a status, to one outcome, the first that matches.
  Groq, in \<open>analyzeResume\<close> and \<open>parseResumeFromText\<close>, reads the message only: rate-limit
  wording gives the fixed rate-limit error, else credential wording gives the fixed
  authentication error, else the error is thrown on unchanged. OpenAI lets a status
  decide alone when there is one: 429 gives the fixed quota or rate-limit error, 401
  the fixed authentication error, any other status an error that quotes status and
  message; without a status, quota wording gives the quota error, rate-limit wording
  the rate-limit error, and anything else, credential wording included, is thrown on
  unchanged. Gemini reads the message only: not-found wording gives the
  model-unavailable error, else quota wording, else credential wording, else the
  error is thrown on unchanged. The fixed errors do not carry the provider's message.
\<close>

theorem provider_errors_first_match:
  \<open>groq_analyzeResume_catch rt (JsError st m) =
     (if groq_rate_limit_text rt m then
        Error ((js ''Groq API rate limit exceeded. Free tier allows 14,400 requests per day. '') @
               (js ''Please wait a moment and try again, or check your usage at https://console.groq.com''))
      else if groq_credential_text rt m then
        Error ((js ''Groq API authentication failed. Please check that your API key is valid. '') @
               (js ''Get a free API key at https://console.groq.com/keys''))
      else JsError st m)
   \<and> parseResumeFromText_catch rt (JsError st m) =
     (if groq_rate_limit_text rt m then
        Error (js ''Resume parser API rate limit exceeded. Please wait a moment and try again.'')
      else if groq_credential_text rt m then
        Error (js ''Resume parser API authentication failed. Please check that your GROQ_API_KEY is valid.'')
      else JsError st m)
   \<and> openai_analyzeResume_catch rt (JsError (Status 429) m) =
     (if js_includes (toLowerCase rt m) (js ''quota'') \<or> js_includes (toLowerCase rt m) (js ''billing'')
         \<or> js_includes (toLowerCase rt m) (js ''exceeded'')
      then Error openai_quota_message
      else Error ((js ''OpenAI API rate limit exceeded. Please wait a moment and try again, '') @
                  (js ''or upgrade your plan for higher rate limits.'')))
   \<and> openai_analyzeResume_catch rt (JsError (Status 401) m) =
     Error ((js ''OpenAI API authentication failed. Please check that your API key is valid '') @
            (js ''and correctly configured in your .env.local file.''))
   \<and> (n \<noteq> 429 \<and> n \<noteq> 401 \<longrightarrow>
      openai_analyzeResume_catch rt (JsError (Status n) m) =
        Error ((js ''OpenAI API error ('') @ show_nat n @ (js ''): '') @ (if m = [] then (js ''Unknown error'') else m)))
   \<and> openai_analyzeResume_catch rt (JsError NoStatus m) =
     (if js_includes m (js ''429'') \<or> js_includes (toLowerCase rt m) (js ''quota'')
         \<or> js_includes (toLowerCase rt m) (js ''billing'')
         \<or> js_includes (toLowerCase rt m) (js ''exceeded your current quota'')
      then Error openai_quota_message
      else if js_includes (toLowerCase rt m) (js ''rate limit'')
      then Error (js ''OpenAI API rate limit exceeded. Please wait a moment and try again.'')
      else JsError NoStatus m)
   \<and> gemini_analyzeResume_catch rt (JsError st m) =
     (if gemini_not_found_text rt m then
        Error ((js ''Gemini model "gemini-1.5-flash" is not available for your account/region. '') @
               (js ''Available models vary by region. Try changing the model name in lib/gemini.ts to: "gemini-pro" or "gemini-1.5-flash". '') @
               (js ''Check available models: https://ai.google.dev/models''))
      else if gemini_quota_text rt m then Error gemini_quota_message
      else if gemini_credential_text rt m then
        Error ((js ''Gemini API authentication failed. Please check that your API key is valid. '') @
               (js ''Get a free API key at https://makersuite.google.com/app/apikey''))
      else JsError st m)\<close>
  by (simp add: groq_analyzeResume_catch_def parseResumeFromText_catch_def
        openai_analyzeResume_catch_def gemini_analyzeResume_catch_def modelName_def)

theorem provider_errors_first_match_witness:
  \<open>openai_analyzeResume_catch sample_runtime (JsError (Status 503) (js ''Service overloaded''))
     = Error (js ''OpenAI API error (503): Service overloaded'')
   \<and> groq_analyzeResume_catch sample_runtime (JsError (Status 500) (js ''Internal error''))
     = JsError (Status 500) (js ''Internal error'')\<close>
proof -
  have a: "\<not> groq_rate_limit_text sample_runtime (js ''Internal error'')" "\<not> groq_credential_text sample_runtime (js ''Internal error'')"
    by code_simp+
  have b: "show_nat 503 = (js ''503'')" by code_simp
  show ?thesis
    using a b
      provider_errors_first_match[where rt = sample_runtime and n = 503 and m = "(js ''Service overloaded'')"]
      provider_errors_first_match[where rt = sample_runtime and st = "Status 500" and m = "(js ''Internal error'')"]
    by simp
qed

text \<open>
  The claim as the specification states it fails: the rate-limit error of the Groq
  adapter does not keep the provider's message, credential wording without a status
  is no authentication error for the OpenAI adapter, where rate-limit and credential
  wording meet the Groq adapter reports a rate limit, and a status 429 alone means
  nothing to the Groq adapter.
\<close>

theorem provider_error_counterexample:
  \<open>snd (groq_analyzeResume sample_runtime (Some (js ''gsk_key''))
          (throws (JsError (Status 429) (js ''429 Too Many Requests: slow down'')))
          (js ''Skills: Python'') (js ''Python expert''))
     = Inl (Error ((js ''Groq API rate limit exceeded. Free tier allows 14,400 requests per day. '') @
                   (js ''Please wait a moment and try again, or check your usage at https://console.groq.com'')))
   \<and> \<not> js_includes
        ((js ''Groq API rate limit exceeded. Free tier allows 14,400 requests per day. '') @
         (js ''Please wait a moment and try again, or check your usage at https://console.groq.com''))
        (js ''429 Too Many Requests: slow down'')
   \<and> openai_analyzeResume_catch sample_runtime (JsError NoStatus (js ''Incorrect API key provided''))
     = JsError NoStatus (js ''Incorrect API key provided'')
   \<and> groq_analyzeResume_catch sample_runtime (JsError (Status 401) (js ''401 Invalid API Key, quota unknown''))
     = Error ((js ''Groq API rate limit exceeded. Free tier allows 14,400 requests per day. '') @
              (js ''Please wait a moment and try again, or check your usage at https://console.groq.com''))
   \<and> groq_analyzeResume_catch sample_runtime (JsError (Status 429) (js ''Slow down''))
     = JsError (Status 429) (js ''Slow down'')\<close>
  by code_simp

end
